theory Spec2Isabelle
  imports Main "HOL-Library.AList"
begin

section \<open>JavaScript values\<close>

text \<open>
  The payloads handled by \<^verbatim>\<open>DrupalJsonApiEntity\<close> (src/libs/plugin-entity.js) are
  JSON:API documents, that is JavaScript values built from \<^verbatim>\<open>undefined\<close>, \<^verbatim>\<open>null\<close>,
  booleans, numbers, strings, arrays and plain objects. An object is the list of its own
  enumerable properties in the order \<^verbatim>\<open>Object.keys\<close> reports them. Numbers are modelled
  as integers: the class only tests them for truthiness and prints them as property keys.
\<close>

datatype json =
    JUndef
  | JNull
  | JBool bool
  | JNum int
  | JStr string
  | JArr "json list"
  | JObj "(string \<times> json) list"

text \<open>
  What the class can raise: a \<^verbatim>\<open>TypeError\<close> of the runtime (a property read on
  \<^verbatim>\<open>undefined\<close> or \<^verbatim>\<open>null\<close>, a call of something that is no function), the
  \<^verbatim>\<open>Error\<close> thrown by \<^verbatim>\<open>field\<close> with its message, and \<open>Unmodelled\<close> for the
  few places where the script would leave the JSON fragment (a built-in method of
  \<^verbatim>\<open>Object.prototype\<close> is called).
\<close>

datatype error = TypeError | Error string | Unmodelled string

definition bindE :: "error + 'a \<Rightarrow> ('a \<Rightarrow> error + 'b) \<Rightarrow> error + 'b" where
  "bindE m f = (case m of Inl e \<Rightarrow> Inl e | Inr x \<Rightarrow> f x)"

text \<open>Truthiness, \<^verbatim>\<open>Array.isArray\<close>.\<close>

fun truthy :: "json \<Rightarrow> bool" where
  "truthy JUndef = False"
| "truthy JNull = False"
| "truthy (JBool b) = b"
| "truthy (JNum n) = (n \<noteq> 0)"
| "truthy (JStr s) = (s \<noteq> [])"
| "truthy (JArr xs) = True"
| "truthy (JObj kvs) = True"

fun isArray :: "json \<Rightarrow> bool" where
  "isArray (JArr xs) = True"
| "isArray v = False"

subsection \<open>Property keys\<close>

text \<open>
  Decimal numerals: the keys of an array are the numerals of its indices, and a key that
  is the canonical numeral of an integer below \<open>2^32 - 1\<close> is an array index, which
  orders before every other key of an object.
\<close>

definition digits10 :: string where
  "digits10 = ''0123456789''"

fun showNat :: "nat \<Rightarrow> string" where
  "showNat n = (if n < 10 then [digits10 ! n] else showNat (n div 10) @ [digits10 ! (n mod 10)])"

declare showNat.simps [simp del]

text \<open>The first position of an element in a list, as \<^verbatim>\<open>Array.prototype.indexOf\<close> finds it.\<close>

fun firstIndex :: "'a \<Rightarrow> 'a list \<Rightarrow> nat option" where
  "firstIndex v [] = None"
| "firstIndex v (x # xs) = (if x = v then Some 0 else map_option Suc (firstIndex v xs))"

definition digitVal :: "char \<Rightarrow> nat option" where
  "digitVal c = firstIndex c digits10"

fun readNat :: "nat \<Rightarrow> string \<Rightarrow> nat option" where
  "readNat acc [] = Some acc"
| "readNat acc (c # cs) = (case digitVal c of None \<Rightarrow> None | Some d \<Rightarrow> readNat (10 * acc + d) cs)"

definition arrayIndex :: "string \<Rightarrow> nat option" where
  "arrayIndex k =
     (if k = [] then None
      else if hd k = CHR ''0'' \<and> tl k \<noteq> [] then None
      else (case readNat 0 k of
              None \<Rightarrow> None
            | Some n \<Rightarrow> if n < 4294967295 then Some n else None))"

subsection \<open>Reading, deleting and setting properties\<close>

text \<open>
  \<^verbatim>\<open>v[k]\<close>. Reading a property of \<^verbatim>\<open>undefined\<close> or \<^verbatim>\<open>null\<close> is a TypeError; a
  primitive or an array has its indices and \<^verbatim>\<open>length\<close>. The inherited methods of the
  prototypes are left out: the class reads from payload values only the fixed names
  \<^verbatim>\<open>jsonapi, links, self, data, type, id, attributes\<close>, the relationship group names and
  names that \<^verbatim>\<open>Object.keys\<close> returned.
\<close>

fun jsGet :: "json \<Rightarrow> string \<Rightarrow> error + json" where
  "jsGet JUndef k = Inl TypeError"
| "jsGet JNull k = Inl TypeError"
| "jsGet (JObj kvs) k = Inr (case map_of kvs k of None \<Rightarrow> JUndef | Some v \<Rightarrow> v)"
| "jsGet (JArr xs) k =
     Inr (if k = ''length'' then JNum (int (length xs))
          else (case arrayIndex k of
                  None \<Rightarrow> JUndef
                | Some i \<Rightarrow> if i < length xs then xs ! i else JUndef))"
| "jsGet (JStr s) k =
     Inr (if k = ''length'' then JNum (int (length s))
          else (case arrayIndex k of
                  None \<Rightarrow> JUndef
                | Some i \<Rightarrow> if i < length s then JStr [s ! i] else JUndef))"
| "jsGet v k = Inr JUndef"

text \<open>The same read where the receiver is already known to be neither \<^verbatim>\<open>undefined\<close> nor \<^verbatim>\<open>null\<close>.\<close>

definition jsProp :: "json \<Rightarrow> string \<Rightarrow> json" where
  "jsProp v k = (case jsGet v k of Inl e \<Rightarrow> JUndef | Inr x \<Rightarrow> x)"

text \<open>\<^verbatim>\<open>v[i]\<close> for a number \<open>i\<close> on an array.\<close>

definition jsIndex :: "json list \<Rightarrow> nat \<Rightarrow> json" where
  "jsIndex xs i = (if i < length xs then xs ! i else JUndef)"

text \<open>\<^verbatim>\<open>delete v[k]\<close> for one of the names \<^verbatim>\<open>jsonapi\<close>, \<^verbatim>\<open>links\<close>, which no array or primitive owns.\<close>

fun jsDelete :: "string \<Rightarrow> json \<Rightarrow> error + json" where
  "jsDelete k JUndef = Inl TypeError"
| "jsDelete k JNull = Inl TypeError"
| "jsDelete k (JObj kvs) = Inr (JObj (AList.delete k kvs))"
| "jsDelete k v = Inr v"

text \<open>
  \<^verbatim>\<open>o[k] = v\<close> on a plain object: an existing key keeps its place; a new array index goes
  before the first key that is no smaller array index; any other new key goes last.
  (The key \<^verbatim>\<open>__proto__\<close>, which an assignment turns into a change of prototype, is
  treated as any other key.)
\<close>

fun insertIndex :: "nat \<Rightarrow> string \<Rightarrow> 'v \<Rightarrow> (string \<times> 'v) list \<Rightarrow> (string \<times> 'v) list" where
  "insertIndex n k v [] = [(k, v)]"
| "insertIndex n k v (p # ps) =
     (case arrayIndex (fst p) of
        None \<Rightarrow> (k, v) # p # ps
      | Some m \<Rightarrow> if n < m then (k, v) # p # ps else p # insertIndex n k v ps)"

definition objSet :: "string \<Rightarrow> 'v \<Rightarrow> (string \<times> 'v) list \<Rightarrow> (string \<times> 'v) list" where
  "objSet k v kvs =
     (if k \<in> fst ` set kvs then AList.update k v kvs
      else (case arrayIndex k of
              None \<Rightarrow> kvs @ [(k, v)]
            | Some n \<Rightarrow> insertIndex n k v kvs))"

text \<open>\<^verbatim>\<open>Object.assign(target, source)\<close> on plain objects.\<close>

definition objAssign :: "(string \<times> 'v) list \<Rightarrow> (string \<times> 'v) list \<Rightarrow> (string \<times> 'v) list" where
  "objAssign target source = foldl (\<lambda>t p. objSet (fst p) (snd p) t) target source"

text \<open>\<^verbatim>\<open>Object.keys(v)\<close>: a TypeError on \<^verbatim>\<open>undefined\<close> and \<^verbatim>\<open>null\<close>, the indices of an array or a string.\<close>

fun objectKeys :: "json \<Rightarrow> error + string list" where
  "objectKeys JUndef = Inl TypeError"
| "objectKeys JNull = Inl TypeError"
| "objectKeys (JObj kvs) = Inr (map fst kvs)"
| "objectKeys (JArr xs) = Inr (map showNat [0..<length xs])"
| "objectKeys (JStr s) = Inr (map showNat [0..<length s])"
| "objectKeys v = Inr []"

subsection \<open>Strings\<close>

text \<open>\<^verbatim>\<open>s.split(sep)\<close> and \<^verbatim>\<open>s.indexOf(sep)\<close> of \<^verbatim>\<open>String.prototype\<close>.\<close>

fun jsSplit :: "string \<Rightarrow> string \<Rightarrow> string list" where
  "jsSplit [] s = map (\<lambda>c. [c]) s"
| "jsSplit (a # sep) [] = [[]]"
| "jsSplit (a # sep) (c # cs) =
     (if take (Suc (length sep)) (c # cs) = a # sep
      then [] # jsSplit (a # sep) (drop (length sep) cs)
      else (case jsSplit (a # sep) cs of
              [] \<Rightarrow> [[c]]
            | p # ps \<Rightarrow> (c # p) # ps))"

fun strIndexOf :: "string \<Rightarrow> string \<Rightarrow> nat option" where
  "strIndexOf sep [] = (if sep = [] then Some 0 else None)"
| "strIndexOf sep (c # cs) =
     (if take (length sep) (c # cs) = sep then Some 0
      else map_option Suc (strIndexOf sep cs))"

text \<open>The number of positions at which \<open>sep\<close> occurs in a string.\<close>

fun occurrencesOf :: "string \<Rightarrow> string \<Rightarrow> nat" where
  "occurrencesOf sep [] = 0"
| "occurrencesOf sep (c # cs) =
     (if take (length sep) (c # cs) = sep then 1 else 0) + occurrencesOf sep cs"

text \<open>The regular expressions of the class, each as the predicate its \<^verbatim>\<open>test\<close> computes.\<close>

definition isLower :: "char \<Rightarrow> bool" where
  "isLower c = (c \<in> set ''abcdefghijklmnopqrstuvwxyz'')"

fun stripPrefix :: "string \<Rightarrow> string \<Rightarrow> string option" where
  "stripPrefix [] s = Some s"
| "stripPrefix (p # ps) [] = None"
| "stripPrefix (p # ps) (c # cs) = (if p = c then stripPrefix ps cs else None)"

text \<open>\<^verbatim>\<open>/^field_/\<close>\<close>

definition re_field :: "string \<Rightarrow> bool" where
  "re_field k = (stripPrefix ''field_'' k \<noteq> None)"

text \<open>\<^verbatim>\<open>[a-z]?id$\<close> on the rest of a key\<close>

fun re_opt_lower_id :: "string \<Rightarrow> bool" where
  "re_opt_lower_id [] = False"
| "re_opt_lower_id (c # r) = (c # r = ''id'' \<or> (isLower c \<and> r = ''id''))"

text \<open>\<^verbatim>\<open>/^drupal_internal_[a-z]?id$/\<close> (one underscore before the optional letter)\<close>

definition re_drupal_internal_id :: "string \<Rightarrow> bool" where
  "re_drupal_internal_id k =
     (case stripPrefix ''drupal_internal_'' k of None \<Rightarrow> False | Some r \<Rightarrow> re_opt_lower_id r)"

text \<open>\<^verbatim>\<open>/^drupal_internal__[a-z]?id$/\<close> (two underscores)\<close>

definition isId :: "string \<Rightarrow> bool" where
  "isId k =
     (case stripPrefix ''drupal_internal__'' k of None \<Rightarrow> False | Some r \<Rightarrow> re_opt_lower_id r)"

text \<open>\<^verbatim>\<open>/^(label|title|status|path|paragraphs)$/\<close>\<close>

definition re_named :: "string \<Rightarrow> bool" where
  "re_named k = (k \<in> set [''label'', ''title'', ''status'', ''path'', ''paragraphs''])"

text \<open>\<^verbatim>\<open>/^paragraphs$/\<close>\<close>

definition re_paragraphs :: "string \<Rightarrow> bool" where
  "re_paragraphs k = (k = ''paragraphs'')"

section \<open>The transformer\<close>

text \<open>The size of a member of an object or an array, for the recursion of \<open>cleanField\<close>.\<close>

lemma size_entry_less:
  "(k, v) \<in> set kvs \<Longrightarrow> size v < Suc (size_list (size_prod (\<lambda>x. 0) size) kvs)"
  by (induction kvs) auto

lemma size_entry_delete_less:
  "(k, v) \<in> set (AList.delete k' kvs) \<Longrightarrow> size v < Suc (size_list (size_prod (\<lambda>x. 0) size) kvs)"
  by (rule size_entry_less [of k]) (simp add: AList.delete_eq)

lemma size_element_less: "x \<in> set xs \<Longrightarrow> size x < Suc (size_list size xs)"
  by (induction xs) auto

text \<open>
  \<^verbatim>\<open>cleanField(field)\<close> (lines 313-325). A plain object loses \<^verbatim>\<open>links\<close> when
  \<^verbatim>\<open>field.links && field.links.self\<close>, and its \<^verbatim>\<open>data\<close>, when an array, is replaced by
  the cleaned array; an array is cleaned element by element; anything else is returned
  as it is. (The keys of an object are distinct, so the entry named \<^verbatim>\<open>data\<close> is one.)
\<close>

function (sequential) cleanField :: "json \<Rightarrow> json" where
  "cleanField (JObj kvs) =
     JObj (map (\<lambda>(k, v). if k = ''data'' \<and> isArray v then (k, cleanField v) else (k, v))
            (if truthy (jsProp (JObj kvs) ''links'') \<and> truthy (jsProp (jsProp (JObj kvs) ''links'') ''self'')
             then AList.delete ''links'' kvs else kvs))"
| "cleanField (JArr xs) = JArr (map cleanField xs)"
| "cleanField v = v"
  by pat_completeness auto

termination
  by (relation "measure size") (auto simp: size_entry_less size_entry_delete_less size_element_less split: if_splits)

text \<open>\<^verbatim>\<open>cleanFields(fields)\<close> (lines 297-306).\<close>

definition fieldTests :: "(string \<Rightarrow> bool) list" where
  "fieldTests = [re_field, re_drupal_internal_id, re_named]"

text \<open>\<^verbatim>\<open>k => fieldTests.some(t => t.test(k))\<close>\<close>

definition keepsField :: "string \<Rightarrow> bool" where
  "keepsField k = list_ex (\<lambda>t. t k) fieldTests"

definition cleanFields :: "json \<Rightarrow> error + json" where
  "cleanFields fields =
     bindE (objectKeys fields) (\<lambda>ks.
       Inr (JObj (foldl (\<lambda>group k. objSet k (cleanField (jsProp fields k)) group) []
                   (filter keepsField ks))))"

text \<open>
  \<^verbatim>\<open>Object.assign(res.data, { [fieldSet]: ... })\<close>: the target is the object held at
  \<^verbatim>\<open>res.data\<close>. A primitive target is wrapped and the wrapper dropped; a named property
  on an array has no JSON form.
\<close>

fun assignField :: "json \<Rightarrow> string \<Rightarrow> json \<Rightarrow> error + json" where
  "assignField JUndef k v = Inl TypeError"
| "assignField JNull k v = Inl TypeError"
| "assignField (JObj kvs) k v = Inr (JObj (objSet k v kvs))"
| "assignField (JArr xs) k v = Inl (Unmodelled ''Object.assign on an array'')"
| "assignField t k v = Inr t"

definition cleanFieldSet :: "json \<Rightarrow> string \<Rightarrow> error + json" where
  "cleanFieldSet d fieldSet =
     bindE (jsGet d fieldSet) (\<lambda>fields.
     bindE (cleanFields fields) (\<lambda>cleaned.
       assignField d fieldSet cleaned))"

text \<open>Storing the object that \<^verbatim>\<open>res.data\<close> refers to, after it was changed in place.\<close>

fun withData :: "json \<Rightarrow> json \<Rightarrow> json" where
  "withData (JObj kvs) d = JObj (AList.update ''data'' d kvs)"
| "withData r d = r"

text \<open>\<^verbatim>\<open>transform(res)\<close> (lines 282-291).\<close>

definition transform :: "json \<Rightarrow> error + json" where
  "transform res0 =
     bindE (jsDelete ''jsonapi'' res0) (\<lambda>res1.
     bindE (jsDelete ''links'' res1) (\<lambda>res2.
     bindE (jsGet res2 ''data'') (\<lambda>d0.
     bindE (if truthy d0 \<and> truthy (jsProp d0 ''links'') then jsDelete ''links'' d0 else Inr d0) (\<lambda>d1.
     bindE (cleanFieldSet d1 ''attributes'') (\<lambda>d2.
     bindE (cleanFieldSet d2 ''relationships'') (\<lambda>d3.
       Inr (withData res2 d3)))))))"

section \<open>The entity and its collaborator\<close>

text \<open>
  A lookup key, as \<^verbatim>\<open>dataToLookup\<close> builds it: \<^verbatim>\<open>{ entity, bundle, uuid }\<close>. The first two
  are elements of \<^verbatim>\<open>type.split('--')\<close> (\<^verbatim>\<open>undefined\<close> where the element is missing).
\<close>

record lookup =
  entity_l :: json
  bundle_l :: json
  uuid :: json

text \<open>
  What \<^verbatim>\<open>getFieldValue\<close> returns: a value of the payload, or an object handed out by the
  collaborator (an entity), of a type \<open>'o\<close> the class never looks into.
\<close>

datatype 'o resolved = Plain json | Related 'o

text \<open>
  The depth of a traversal, as \<^verbatim>\<open>loadRelationships(depth)\<close> can receive it and as
  \<^verbatim>\<open>depth + 1\<close> can come out: \<^verbatim>\<open>undefined\<close> (the argument left out), \<^verbatim>\<open>NaN\<close>, or a
  double whose value is an integer. (A depth counts levels; fractions and values that
  are no numbers are left out.)
\<close>

datatype number = Undefined | NaN | Number int

text \<open>The number of binary digits of a natural number.\<close>

fun bitLength :: "nat \<Rightarrow> nat" where
  "bitLength n = (if n = 0 then 0 else Suc (bitLength (n div 2)))"

declare bitLength.simps [simp del]

text \<open>
  The double nearest to an integer: the integer itself up to \<open>2^53\<close> in absolute value;
  beyond, the nearest multiple of the unit in the last of the 53 digits, a tie going to
  the even multiple.
\<close>

definition roundDouble :: "int \<Rightarrow> int" where
  "roundDouble m =
     (if \<bar>m\<bar> \<le> 2 ^ 53 then m
      else (let u = 2 ^ (bitLength (nat \<bar>m\<bar>) - 53);
                q = \<bar>m\<bar> div u;
                r = \<bar>m\<bar> mod u;
                q' = (if 2 * r < u then q else if u < 2 * r then q + 1
                      else if even q then q else q + 1)
            in sgn m * (q' * u)))"

text \<open>\<^verbatim>\<open>depth + 1\<close>: \<^verbatim>\<open>undefined + 1\<close> and \<^verbatim>\<open>NaN + 1\<close> are \<^verbatim>\<open>NaN\<close>, and the sum of two doubles is rounded.\<close>

fun plusOne :: "number \<Rightarrow> number" where
  "plusOne Undefined = NaN"
| "plusOne NaN = NaN"
| "plusOne (Number n) = Number (roundDouble (n + 1))"

text \<open>The eventual state of a promise.\<close>

datatype 'a settlement = Fulfilled 'a | Rejected | Pending

text \<open>
  The collaborator \<^verbatim>\<open>this.api\<close>, whose class is not part of the file: the methods the
  entity calls on it, and \<open>related_value\<close>, the \<^verbatim>\<open>value(name)\<close> method of the objects it
  hands out. \<open>getEntity\<close> gives the eventual state of the promise the call returns.
\<close>

record 'o api =
  getRelationship :: "json \<Rightarrow> error + 'o resolved"
  related_value :: "'o \<Rightarrow> string \<Rightarrow> error + 'o resolved"
  hasBeenTraversed :: "lookup \<Rightarrow> bool"
  endpoint :: "lookup \<Rightarrow> string"
  getEntity :: "lookup \<Rightarrow> number \<Rightarrow> 'o settlement"

text \<open>
  \<^verbatim>\<open>this.config\<close> (lines 7-15). \<open>valueProcessors\<close> is the table read as the class reads
  it: \<open>valueProcessors c k\<close> is the function found at \<^verbatim>\<open>valueProcessors[k]\<close>, if a
  function is found there.
\<close>

record 'o config =
  relationshipTests :: "(string \<Rightarrow> bool) list"
  cleanEntity :: "json \<Rightarrow> error + json"
  valueProcessors :: "string \<Rightarrow> (json \<Rightarrow> error + 'o resolved) option"
  isRelationship :: "json \<Rightarrow> error + bool"

record 'o drupalEntity =
  config :: "'o config"
  api :: "'o api"
  res :: json
  data :: json
  attrs :: json
  relationshipGroups :: "string list"
  fieldMap_memo :: "(string \<times> string list) list"
  id_memo :: json

subsection \<open>The default configuration\<close>

text \<open>
  \<^verbatim>\<open>i => typeof i === 'object' && i && !Array.isArray(i) && i.type && i.id && i.type.indexOf('--') > 1\<close>.
  A truthy \<^verbatim>\<open>type\<close> that is neither a string nor an array has no \<^verbatim>\<open>indexOf\<close>: the call
  is a TypeError.
\<close>

definition isRelationship_default :: "json \<Rightarrow> error + bool" where
  "isRelationship_default i =
     (case i of
        JObj kvs \<Rightarrow>
          if truthy (jsProp i ''type'') \<and> truthy (jsProp i ''id'') then
            (case jsProp i ''type'' of
               JStr s \<Rightarrow> Inr (case strIndexOf ''--'' s of None \<Rightarrow> False | Some n \<Rightarrow> 1 < n)
             | JArr xs \<Rightarrow> Inr (case firstIndex (JStr ''--'') xs of None \<Rightarrow> False | Some n \<Rightarrow> 1 < n)
             | _ \<Rightarrow> Inl TypeError)
          else Inr False
      | _ \<Rightarrow> Inr False)"

text \<open>
  The default table \<^verbatim>\<open>valueProcessors: {}\<close> has no property of its own, and inherits the
  methods of \<^verbatim>\<open>Object.prototype\<close>: at those names \<^verbatim>\<open>typeof ... === 'function'\<close> holds and
  the built-in is called.
\<close>

definition objectPrototypeMethods :: "string list" where
  "objectPrototypeMethods =
     [''constructor'', ''hasOwnProperty'', ''isPrototypeOf'', ''propertyIsEnumerable'',
      ''toLocaleString'', ''toString'', ''valueOf'', ''__defineGetter__'', ''__defineSetter__'',
      ''__lookupGetter__'', ''__lookupSetter__'']"

definition valueProcessors_default :: "string \<Rightarrow> (json \<Rightarrow> error + 'o resolved) option" where
  "valueProcessors_default k =
     (if k \<in> set objectPrototypeMethods then Some (\<lambda>field. Inl (Unmodelled k)) else None)"

definition defaultConfig :: "'o config" where
  "defaultConfig =
     \<lparr> relationshipTests = [re_field, re_paragraphs],
       cleanEntity = transform,
       valueProcessors = valueProcessors_default,
       isRelationship = isRelationship_default \<rparr>"

subsection \<open>Construction\<close>

text \<open>\<^verbatim>\<open>getData(input)\<close> (lines 68-79).\<close>

definition getData :: "json \<Rightarrow> error + json" where
  "getData input =
     bindE (jsGet input ''data'') (\<lambda>d.
       if truthy d \<and> truthy (jsProp d ''type'') \<and> truthy (jsProp d ''id'') then Inr d
       else if truthy (jsProp input ''type'') \<and> truthy (jsProp input ''id'') then Inr input
       else if truthy d \<and> isArray d then Inr d
       else Inr (JObj []))"

text \<open>\<^verbatim>\<open>constructor (api, apiData, options)\<close> (lines 6-23), \<open>cfg\<close> being the merged configuration.\<close>

definition constructor :: "'o config \<Rightarrow> 'o api \<Rightarrow> json \<Rightarrow> error + 'o drupalEntity" where
  "constructor cfg a apiData =
     bindE (cleanEntity cfg apiData) (\<lambda>r.
     bindE (getData r) (\<lambda>d.
       Inr \<lparr> config = cfg,
             api = a,
             res = r,
             data = d,
             attrs = (if truthy r \<and> truthy (jsProp r ''data'')
                         \<and> truthy (jsProp (jsProp r ''data'') ''attributes'')
                      then jsProp (jsProp r ''data'') ''attributes'' else JObj []),
             relationshipGroups = [''relationships''],
             fieldMap_memo = [],
             id_memo = JNull \<rparr>))"

subsection \<open>Identity and classification\<close>

text \<open>
  \<^verbatim>\<open>get id ()\<close> (lines 28-37): \<open>entity_id\<close> is the value the getter returns, read from the
  memo \<^verbatim>\<open>_id\<close> when that is truthy, and \<open>id_stored\<close> is the entity the getter leaves
  behind, with the value stored in \<^verbatim>\<open>_id\<close>. Nothing else writes \<^verbatim>\<open>_id\<close>.
\<close>

definition entity_id :: "'o drupalEntity \<Rightarrow> error + json" where
  "entity_id e =
     (if \<not> truthy (id_memo e) then
        bindE (objectKeys (attrs e)) (\<lambda>ks.
          case find isId ks of
            None \<Rightarrow> Inr (id_memo e)
          | Some key \<Rightarrow> if key \<noteq> [] then Inr (jsProp (attrs e) key) else Inr (id_memo e))
      else Inr (id_memo e))"

definition id_stored :: "'o drupalEntity \<Rightarrow> 'o drupalEntity" where
  "id_stored e = (case entity_id e of Inl err \<Rightarrow> e | Inr v \<Rightarrow> e \<lparr> id_memo := v \<rparr>)"

text \<open>\<^verbatim>\<open>v.type.split('--')\<close>: a TypeError unless \<^verbatim>\<open>v.type\<close> is a string.\<close>

definition typeSplit :: "json \<Rightarrow> error + string list" where
  "typeSplit v =
     bindE (jsGet v ''type'') (\<lambda>t.
       case t of JStr s \<Rightarrow> Inr (jsSplit ''--'' s) | _ \<Rightarrow> Inl TypeError)"

definition strAt :: "string list \<Rightarrow> nat \<Rightarrow> json" where
  "strAt ps i = (if i < length ps then JStr (ps ! i) else JUndef)"

text \<open>\<^verbatim>\<open>get entity ()\<close> (lines 43-45) and \<^verbatim>\<open>get bundle ()\<close> (lines 59-61; \<open>bundle\<close> is a reserved
  word of the theory language).\<close>

definition entity :: "'o drupalEntity \<Rightarrow> error + json" where
  "entity e =
     bindE (jsGet (res e) ''data'') (\<lambda>d. bindE (typeSplit d) (\<lambda>ps. Inr (strAt ps 0)))"

definition bundle_of :: "'o drupalEntity \<Rightarrow> error + json" where
  "bundle_of e =
     bindE (jsGet (res e) ''data'') (\<lambda>d. bindE (typeSplit d) (\<lambda>ps. Inr (strAt ps 1)))"

text \<open>\<^verbatim>\<open>isCollection()\<close> (lines 85-87).\<close>

definition isCollection :: "'o drupalEntity \<Rightarrow> bool" where
  "isCollection e = isArray (data e)"

section \<open>The field mapper\<close>

text \<open>
  \<^verbatim>\<open>relationshipFieldNames(group)\<close> (lines 190-193):
  \<^verbatim>\<open>Object.keys(this.data[group] || []).filter(k => tests.some(r => r.test(k)))\<close>.
\<close>

definition relationshipFieldNames :: "'o drupalEntity \<Rightarrow> string \<Rightarrow> error + string list" where
  "relationshipFieldNames e grp =
     bindE (jsGet (data e) grp) (\<lambda>g.
     bindE (objectKeys (if truthy g then g else JArr [])) (\<lambda>ks.
       Inr (filter (\<lambda>k. list_ex (\<lambda>r. r k) (relationshipTests (config e))) ks)))"

text \<open>\<^verbatim>\<open>makePath = (keys, path) => keys.reduce((arr, k) => arr.concat([[k, path.concat(k)]]), [])\<close>\<close>

definition makePath :: "string list \<Rightarrow> string list \<Rightarrow> (string \<times> string list) list" where
  "makePath keys path = foldl (\<lambda>arr k. arr @ [(k, path @ [k])]) [] keys"

text \<open>
  The \<^verbatim>\<open>reduce\<close> over \<^verbatim>\<open>relationshipGroups\<close> of the getter, \<open>pairs\<close> being the pairs
  collected so far.
\<close>

fun groupPaths :: "'o drupalEntity \<Rightarrow> string list \<Rightarrow> (string \<times> string list) list
    \<Rightarrow> error + (string \<times> string list) list" where
  "groupPaths e [] pairs = Inr pairs"
| "groupPaths e (grp # grps) pairs =
     bindE (relationshipFieldNames e grp) (\<lambda>names.
       groupPaths e grps (pairs @ makePath names [''data'', grp]))"

text \<open>\<^verbatim>\<open>new Map(pairs)\<close>: a later pair with a key already present replaces its value.\<close>

definition newMap :: "(string \<times> string list) list \<Rightarrow> (string \<times> string list) list" where
  "newMap pairs = foldl (\<lambda>m p. AList.update (fst p) (snd p) m) [] pairs"

text \<open>
  \<^verbatim>\<open>get fieldMap ()\<close> (lines 165-175): \<open>fieldMap\<close> is the map the getter returns, read
  from the memo \<^verbatim>\<open>_fieldMap\<close> when that is not empty, and \<open>fieldMap_stored\<close> is the entity
  the getter leaves behind, with the map stored in \<^verbatim>\<open>_fieldMap\<close>. Nothing else writes
  \<^verbatim>\<open>_fieldMap\<close>.
\<close>

definition fieldMap :: "'o drupalEntity \<Rightarrow> error + (string \<times> string list) list" where
  "fieldMap e =
     (if \<not> isCollection e \<and> fieldMap_memo e = [] then
        bindE (objectKeys (attrs e)) (\<lambda>ks.
        bindE (groupPaths e (relationshipGroups e) (makePath ks [''data'', ''attributes''])) (\<lambda>pairs.
          Inr (newMap pairs)))
      else Inr (fieldMap_memo e))"

definition fieldMap_stored :: "'o drupalEntity \<Rightarrow> 'o drupalEntity" where
  "fieldMap_stored e = (case fieldMap e of Inl err \<Rightarrow> e | Inr m \<Rightarrow> e \<lparr> fieldMap_memo := m \<rparr>)"

section \<open>The value resolver\<close>

text \<open>\<^verbatim>\<open>getPath(path)\<close> (lines 181-183): \<^verbatim>\<open>path.reduce((value, key) => value[key], this.res)\<close>.\<close>

fun getPathFrom :: "json \<Rightarrow> string list \<Rightarrow> error + json" where
  "getPathFrom v [] = Inr v"
| "getPathFrom v (key # path) = bindE (jsGet v key) (\<lambda>w. getPathFrom w path)"

definition getPath :: "'o drupalEntity \<Rightarrow> string list \<Rightarrow> error + json" where
  "getPath e path = getPathFrom (res e) path"

text \<open>
  The string a value becomes in a template literal or as a property key. (Numbers are
  printed in plain decimal, as the script does below \<open>10^21\<close>.)
\<close>

fun joinWith :: "string \<Rightarrow> string list \<Rightarrow> string" where
  "joinWith sep [] = []"
| "joinWith sep [s] = s"
| "joinWith sep (s # t # ss) = s @ sep @ joinWith sep (t # ss)"

definition showInt :: "int \<Rightarrow> string" where
  "showInt n = (if n < 0 then CHR ''-'' # showNat (nat (- n)) else showNat (nat n))"

fun toStringJS :: "json \<Rightarrow> string" where
  "toStringJS JUndef = ''undefined''"
| "toStringJS JNull = ''null''"
| "toStringJS (JBool b) = (if b then ''true'' else ''false'')"
| "toStringJS (JNum n) = showInt n"
| "toStringJS (JStr s) = s"
| "toStringJS (JArr xs) =
     joinWith '','' (map (\<lambda>x. if x = JUndef \<or> x = JNull then [] else toStringJS x) xs)"
| "toStringJS (JObj kvs) = ''[object Object]''"

text \<open>
  \<^verbatim>\<open>field(name)\<close> (lines 94-99). The message is built, and with it \<^verbatim>\<open>this.entity\<close> read,
  before the error is thrown.
\<close>

definition notPartOfEntity :: "string \<Rightarrow> string \<Rightarrow> string" where
  "notPartOfEntity name kind =
     ''The field ('' @ name @ '') is not part of the entity ('' @ kind @ '')''"

definition field :: "'o drupalEntity \<Rightarrow> string \<Rightarrow> error + json" where
  "field e name =
     bindE (fieldMap e) (\<lambda>m.
       case map_of m name of
         None \<Rightarrow> bindE (entity e) (\<lambda>kind. Inl (Error (notPartOfEntity name (toStringJS kind))))
       | Some path \<Rightarrow> getPath e path)"

text \<open>
  The first half of \<^verbatim>\<open>getFieldValue(structure, index = 0)\<close> (lines 137-147): unwrapping
  \<^verbatim>\<open>data\<close> and taking the element at \<open>index\<close>.
\<close>

definition isObjectType :: "json \<Rightarrow> bool" where
  "isObjectType v = (case v of JNull \<Rightarrow> True | JArr xs \<Rightarrow> True | JObj kvs \<Rightarrow> True | _ \<Rightarrow> False)"

definition unwrapData :: "json \<Rightarrow> nat \<Rightarrow> json" where
  "unwrapData structure index =
     (let v = (if isObjectType structure \<and> truthy structure then
                 (case jsProp structure ''data'' of
                    JArr xs \<Rightarrow> jsIndex xs index
                  | d \<Rightarrow> if truthy d then d else structure)
               else structure)
      in case v of
           JArr ys \<Rightarrow> if truthy (jsIndex ys index) then jsIndex ys index else v
         | _ \<Rightarrow> v)"

text \<open>
  \<^verbatim>\<open>x.value(name)\<close> on what the collaborator or an earlier \<^verbatim>\<open>value\<close> returned: a value of
  the payload has no method \<^verbatim>\<open>value\<close>.
\<close>

fun callValue :: "'o api \<Rightarrow> 'o resolved \<Rightarrow> string \<Rightarrow> error + 'o resolved" where
  "callValue a (Related x) name = related_value a x name"
| "callValue a (Plain j) name = Inl TypeError"

text \<open>\<^verbatim>\<open>getFieldValue(structure, index = 0)\<close> (lines 136-159).\<close>

definition getFieldValue :: "'o drupalEntity \<Rightarrow> json \<Rightarrow> nat \<Rightarrow> error + 'o resolved" where
  "getFieldValue e structure index =
     (let v = unwrapData structure index in
      bindE (isRelationship (config e) v) (\<lambda>rel.
        if rel then
          bindE (typeSplit v) (\<lambda>ps.
            if strAt ps 0 = JStr ''paragraph'' \<and> strAt ps 1 = JStr ''from_library'' then
              bindE (getRelationship (api e) v) (\<lambda>r1.
              bindE (callValue (api e) r1 ''field_reusable_paragraph'') (\<lambda>r2.
                callValue (api e) r2 ''paragraphs''))
            else getRelationship (api e) v)
        else Inr (Plain v)))"

text \<open>\<^verbatim>\<open>value(name)\<close> (lines 106-112).\<close>

definition entity_value :: "'o drupalEntity \<Rightarrow> string \<Rightarrow> error + 'o resolved" where
  "entity_value e name =
     bindE (field e name) (\<lambda>f.
       case valueProcessors (config e) (toStringJS f) of
         Some processor \<Rightarrow> processor f
       | None \<Rightarrow> getFieldValue e f 0)"

section \<open>The relationship extractor and the traversal coordinator\<close>

text \<open>\<^verbatim>\<open>dataToLookup(data)\<close> (lines 242-249).\<close>

definition dataToLookup :: "json \<Rightarrow> error + lookup" where
  "dataToLookup d =
     bindE (typeSplit d) (\<lambda>ps.
       Inr \<lparr> entity_l = strAt ps 0, bundle_l = strAt ps 1, uuid = jsProp d ''id'' \<rparr>)"

text \<open>
  \<^verbatim>\<open>parseRelationshipLookups(items)\<close> (lines 226-236). \<open>parseItems\<close> and \<open>parseValues\<close> are
  the \<^verbatim>\<open>reduce\<close> over an array and over the \<^verbatim>\<open>Object.values\<close> of an object, \<open>acc\<close> being
  the object that \<^verbatim>\<open>Object.assign\<close> fills.
\<close>

fun parseRelationshipLookups :: "'o drupalEntity \<Rightarrow> json \<Rightarrow> error + (string \<times> lookup) list"
  and parseItems :: "'o drupalEntity \<Rightarrow> json list \<Rightarrow> (string \<times> lookup) list
    \<Rightarrow> error + (string \<times> lookup) list"
  and parseValues :: "'o drupalEntity \<Rightarrow> (string \<times> json) list \<Rightarrow> (string \<times> lookup) list
    \<Rightarrow> error + (string \<times> lookup) list" where
  "parseRelationshipLookups e items =
     (case isRelationship (config e) items of
        Inl err \<Rightarrow> Inl err
      | Inr rel \<Rightarrow>
          if rel then
            (case dataToLookup items of
               Inl err \<Rightarrow> Inl err
             | Inr l \<Rightarrow> Inr [(endpoint (api e) l, l)])
          else
            (case items of
               JArr xs \<Rightarrow> parseItems e xs []
             | JObj kvs \<Rightarrow> parseValues e kvs []
             | _ \<Rightarrow> Inr []))"
| "parseItems e [] acc = Inr acc"
| "parseItems e (x # xs) acc =
     (case parseRelationshipLookups e x of
        Inl err \<Rightarrow> Inl err
      | Inr found \<Rightarrow> parseItems e xs (objAssign acc found))"
| "parseValues e [] acc = Inr acc"
| "parseValues e (p # ps) acc =
     (case parseRelationshipLookups e (snd p) of
        Inl err \<Rightarrow> Inl err
      | Inr found \<Rightarrow> parseValues e ps (objAssign acc found))"

text \<open>
  \<^verbatim>\<open>loadRelationshipGroup(group, depth)\<close> (lines 209-219). The promises it returns are
  the calls \<^verbatim>\<open>this.api.getEntity(l, depth + 1)\<close>, given here by their arguments, in the
  order of the calls.
\<close>

definition loadRelationshipGroup :: "'o drupalEntity \<Rightarrow> string \<Rightarrow> number
    \<Rightarrow> error + (lookup \<times> number) list" where
  "loadRelationshipGroup e grp depth =
     (if isCollection e then Inr []
      else
        bindE (jsGet (data e) grp) (\<lambda>g.
          if truthy g then
            bindE (relationshipFieldNames e grp) (\<lambda>names.
            bindE (parseRelationshipLookups e (JArr (map (\<lambda>k. jsProp g k) names))) (\<lambda>found.
              Inr (map (\<lambda>l. (l, plusOne depth))
                    (filter (\<lambda>l. \<not> hasBeenTraversed (api e) l) (map snd found)))))
          else Inr []))"

text \<open>The \<^verbatim>\<open>reduce\<close> of \<^verbatim>\<open>loadRelationships\<close> (lines 199-201): the calls made, group by group.\<close>

fun loadRequests :: "'o drupalEntity \<Rightarrow> string list \<Rightarrow> number \<Rightarrow> (lookup \<times> number) list
    \<Rightarrow> error + (lookup \<times> number) list" where
  "loadRequests e [] depth promises = Inr promises"
| "loadRequests e (grp # grps) depth promises =
     bindE (loadRelationshipGroup e grp depth) (\<lambda>ps.
       loadRequests e grps depth (promises @ ps))"

text \<open>
  \<^verbatim>\<open>Promise.all\<close>, by the eventual state of its promises: rejected when one of them is,
  fulfilled with all the values when all are fulfilled, and pending otherwise.
\<close>

fun fulfilledValues :: "'a settlement list \<Rightarrow> 'a list" where
  "fulfilledValues [] = []"
| "fulfilledValues (Fulfilled v # ps) = v # fulfilledValues ps"
| "fulfilledValues (p # ps) = fulfilledValues ps"

definition promiseAll :: "'a settlement list \<Rightarrow> 'a list settlement" where
  "promiseAll ps =
     (if list_ex (\<lambda>p. p = Rejected) ps then Rejected
      else if list_ex (\<lambda>p. p = Pending) ps then Pending
      else Fulfilled (fulfilledValues ps))"

text \<open>
  \<^verbatim>\<open>async loadRelationships (depth)\<close> (lines 198-202): the eventual state of the promise it
  returns. An error thrown while the calls are made rejects it.
\<close>

definition loadRelationships :: "'o drupalEntity \<Rightarrow> number \<Rightarrow> 'o list settlement" where
  "loadRelationships e depth =
     (case loadRequests e (relationshipGroups e) depth [] of
        Inl err \<Rightarrow> Rejected
      | Inr requests \<Rightarrow> promiseAll (map (\<lambda>r. getEntity (api e) (fst r) (snd r)) requests))"

section \<open>What the extractor is to collect\<close>

text \<open>
  The references the specification (4.4) asks for: those reached by descending through
  the values of objects and the elements of arrays, the descent stopping at every value
  that passes the relationship predicate. Written from the specification's words, to be
  compared with \<open>parseRelationshipLookups\<close>.
\<close>

fun reachableReferences :: "'o drupalEntity \<Rightarrow> json \<Rightarrow> json list" where
  "reachableReferences e v =
     (if isRelationship (config e) v = Inr True then [v]
      else (case v of
              JArr xs \<Rightarrow> concat (map (reachableReferences e) xs)
            | JObj kvs \<Rightarrow> concat (map (\<lambda>p. reachableReferences e (snd p)) kvs)
            | _ \<Rightarrow> []))"

declare reachableReferences.simps [simp del]

text \<open>The entries of a mapping keyed by endpoint, for a list of references.\<close>

definition lookupEntries :: "'o drupalEntity \<Rightarrow> json list \<Rightarrow> (string \<times> lookup) set" where
  "lookupEntries e rs =
     {(endpoint (api e) l, l) | l r. r \<in> set rs \<and> dataToLookup r = Inr l}"

text \<open>
  The structures of a JSON:API document: every \<^verbatim>\<open>type\<close> member, where there is one, is a
  string.
\<close>

fun typesAreStrings :: "json \<Rightarrow> bool" where
  "typesAreStrings (JObj kvs) =
     ((case map_of kvs ''type'' of None \<Rightarrow> True | Some (JStr s) \<Rightarrow> True | Some t \<Rightarrow> False)
      \<and> list_all (\<lambda>p. typesAreStrings (snd p)) kvs)"
| "typesAreStrings (JArr xs) = list_all typesAreStrings xs"
| "typesAreStrings v = True"

section \<open>Payloads and collaborators of the scenarios\<close>

text \<open>
  The article of the specification's scenario: type \<^verbatim>\<open>node--article\<close>, attributes
  \<^verbatim>\<open>drupal_internal__nid = 42\<close> and \<^verbatim>\<open>field_title = "Hello"\<close>, no relationship.
\<close>

definition article_payload :: json where
  "article_payload =
     JObj [(''data'', JObj [(''type'', JStr ''node--article''), (''id'', JStr ''8a7c''),
       (''attributes'', JObj [(''drupal_internal__nid'', JNum 42), (''field_title'', JStr ''Hello'')]),
       (''relationships'', JObj [])])]"

text \<open>The same resource without \<^verbatim>\<open>relationships\<close>, without \<^verbatim>\<open>attributes\<close>, and a collection.\<close>

definition no_relationships_payload :: json where
  "no_relationships_payload =
     JObj [(''data'', JObj [(''type'', JStr ''node--article''), (''id'', JStr ''8a7c''),
       (''attributes'', JObj [(''field_title'', JStr ''Hello'')])])]"

definition no_attributes_payload :: json where
  "no_attributes_payload =
     JObj [(''data'', JObj [(''type'', JStr ''node--article''), (''id'', JStr ''8a7c''),
       (''relationships'', JObj [])])]"

definition collection_payload :: json where
  "collection_payload =
     JObj [(''data'', JArr [JObj [(''type'', JStr ''node--article''), (''id'', JStr ''8a7c''),
       (''attributes'', JObj [(''field_title'', JStr ''Hello'')]),
       (''relationships'', JObj [])]])]"

text \<open>
  A collaborator for the scenarios. Its objects are numbered: the reference with id
  \<^verbatim>\<open>lib1\<close> is the library wrapper 1, whose \<^verbatim>\<open>field_reusable_paragraph\<close> is the library
  item 2, whose \<^verbatim>\<open>paragraphs\<close> is the paragraph 3. The lookup with uuid \<^verbatim>\<open>seen\<close> has been
  traversed.
\<close>

definition scenario_api :: "nat api" where
  "scenario_api =
     \<lparr> getRelationship = (\<lambda>v. if jsProp v ''id'' = JStr ''lib1'' then Inr (Related 1)
                               else Inr (Plain JUndef)),
       related_value = (\<lambda>x name.
         if x = 1 \<and> name = ''field_reusable_paragraph'' then Inr (Related 2)
         else if x = 2 \<and> name = ''paragraphs'' then Inr (Related 3)
         else Inr (Plain JUndef)),
       hasBeenTraversed = (\<lambda>l. uuid l = JStr ''seen''),
       endpoint = (\<lambda>l. toStringJS (entity_l l) @ ''/'' @ toStringJS (bundle_l l) @ ''/''
                          @ toStringJS (uuid l)),
       getEntity = (\<lambda>l depth. Fulfilled 7) \<rparr>"

text \<open>The entity the constructor builds from the article.\<close>

definition article_entity :: "nat drupalEntity" where
  "article_entity =
     \<lparr> config = defaultConfig,
       api = scenario_api,
       res = JObj [(''data'', JObj [(''type'', JStr ''node--article''), (''id'', JStr ''8a7c''),
               (''attributes'', JObj [(''field_title'', JStr ''Hello'')]),
               (''relationships'', JObj [])])],
       data = JObj [(''type'', JStr ''node--article''), (''id'', JStr ''8a7c''),
               (''attributes'', JObj [(''field_title'', JStr ''Hello'')]),
               (''relationships'', JObj [])],
       attrs = JObj [(''field_title'', JStr ''Hello'')],
       relationshipGroups = [''relationships''],
       fieldMap_memo = [],
       id_memo = JNull \<rparr>"

text \<open>
  The entity built from the collection when the \<^verbatim>\<open>cleanEntity\<close> option leaves the
  payload as it is (\<^verbatim>\<open>d => d\<close>).
\<close>

definition keepPayload :: "json \<Rightarrow> error + json" where
  "keepPayload d = Inr d"

definition collection_entity :: "nat drupalEntity" where
  "collection_entity =
     \<lparr> config = defaultConfig \<lparr> cleanEntity := keepPayload \<rparr>,
       api = scenario_api,
       res = collection_payload,
       data = JArr [JObj [(''type'', JStr ''node--article''), (''id'', JStr ''8a7c''),
               (''attributes'', JObj [(''field_title'', JStr ''Hello'')]),
               (''relationships'', JObj [])]],
       attrs = JObj [],
       relationshipGroups = [''relationships''],
       fieldMap_memo = [],
       id_memo = JNull \<rparr>"

text \<open>
  A page whose name \<^verbatim>\<open>field_ref\<close> is both an attribute and a relationship, with a
  reference under the relationship \<^verbatim>\<open>title\<close> and a to-many relationship \<^verbatim>\<open>field_tags\<close>
  that names one term twice and one term already traversed.
\<close>

definition page_relationships :: json where
  "page_relationships =
     JObj [(''title'', JObj [(''data'', JObj [(''type'', JStr ''node--article''), (''id'', JStr ''t1'')])]),
           (''field_ref'', JObj [(''data'', JObj [(''type'', JStr ''node--article''), (''id'', JStr ''a1'')])]),
           (''field_tags'', JObj [(''data'', JArr [
              JObj [(''type'', JStr ''taxonomy_term--tags''), (''id'', JStr ''g1'')],
              JObj [(''type'', JStr ''taxonomy_term--tags''), (''id'', JStr ''seen'')],
              JObj [(''type'', JStr ''taxonomy_term--tags''), (''id'', JStr ''g1'')]])])]"

definition page_data :: json where
  "page_data =
     JObj [(''type'', JStr ''node--page''), (''id'', JStr ''p1''),
           (''attributes'', JObj [(''title'', JStr ''Page''), (''field_ref'', JStr ''plain'')]),
           (''relationships'', page_relationships)]"

definition page_payload :: json where
  "page_payload = JObj [(''data'', page_data)]"

definition page_entity :: "nat drupalEntity" where
  "page_entity =
     \<lparr> config = defaultConfig,
       api = scenario_api,
       res = page_payload,
       data = page_data,
       attrs = JObj [(''title'', JStr ''Page''), (''field_ref'', JStr ''plain'')],
       relationshipGroups = [''relationships''],
       fieldMap_memo = [],
       id_memo = JNull \<rparr>"

text \<open>
  A raw article as the backend sends it: with the \<^verbatim>\<open>jsonapi\<close> block, links at every
  level, an attribute and a relationship the default transform drops, and a to-many
  relationship.
\<close>

definition raw_payload :: json where
  "raw_payload =
     JObj [(''jsonapi'', JObj [(''version'', JStr ''1.0'')]),
           (''data'', JObj [(''type'', JStr ''node--article''), (''id'', JStr ''8a7c''),
              (''links'', JObj [(''self'', JObj [(''href'', JStr ''/node/8a7c'')])]),
              (''attributes'', JObj [(''drupal_internal__nid'', JNum 42), (''langcode'', JStr ''en''),
                 (''title'', JStr ''Hello''), (''field_title'', JStr ''Hello'')]),
              (''relationships'', JObj [
                 (''uid'', JObj [(''data'', JObj [(''type'', JStr ''user--user''), (''id'', JStr ''u1'')])]),
                 (''field_tags'', JObj [
                    (''data'', JArr [JObj [(''type'', JStr ''taxonomy_term--tags''), (''id'', JStr ''g1''),
                                           (''links'', JObj [(''self'', JStr ''/term/g1'')])]]),
                    (''links'', JObj [(''self'', JObj [(''href'', JStr ''/node/8a7c/field_tags'')])])])])]),
           (''links'', JObj [(''self'', JObj [(''href'', JStr ''/node/8a7c'')])])]"

definition cleaned_payload :: json where
  "cleaned_payload =
     JObj [(''data'', JObj [(''type'', JStr ''node--article''), (''id'', JStr ''8a7c''),
              (''attributes'', JObj [(''title'', JStr ''Hello''), (''field_title'', JStr ''Hello'')]),
              (''relationships'', JObj [
                 (''field_tags'', JObj [
                    (''data'', JArr [JObj [(''type'', JStr ''taxonomy_term--tags''),
                                           (''id'', JStr ''g1'')]])])])])]"

text \<open>A field whose reference is the library wrapper.\<close>

definition library_field :: json where
  "library_field =
     JObj [(''data'', JObj [(''type'', JStr ''paragraph--from_library''), (''id'', JStr ''lib1'')])]"

text \<open>
  A nested structure: a list that names one term twice, and a reference, two objects
  deep, that holds another reference.
\<close>

definition term_g1 :: json where
  "term_g1 = JObj [(''type'', JStr ''taxonomy_term--tags''), (''id'', JStr ''g1'')]"

definition article_with_child :: json where
  "article_with_child =
     JObj [(''type'', JStr ''node--article''), (''id'', JStr ''a1''),
           (''field_child'', JObj [(''type'', JStr ''node--page''), (''id'', JStr ''zz'')])]"

definition nested_structure :: json where
  "nested_structure =
     JObj [(''list'', JArr [term_g1, JStr ''x'', term_g1, JNull]),
           (''deep'', JObj [(''inner'', article_with_child)])]"

definition lookup_of :: "string \<Rightarrow> string \<Rightarrow> string \<Rightarrow> lookup" where
  "lookup_of kind bun u = \<lparr> entity_l = JStr kind, bundle_l = JStr bun, uuid = JStr u \<rparr>"

text \<open>
  A landing page with three relationships: \<^verbatim>\<open>title\<close>, which the transform keeps and
  \<^verbatim>\<open>relationshipTests\<close> reject, \<^verbatim>\<open>field_tags\<close> and \<^verbatim>\<open>paragraphs\<close>.
\<close>

definition landing_relationships :: json where
  "landing_relationships =
     JObj [(''title'', JObj [(''data'', JObj [(''type'', JStr ''node--article''), (''id'', JStr ''t1'')])]),
           (''field_tags'', JObj [(''data'', JArr [
              JObj [(''type'', JStr ''taxonomy_term--tags''), (''id'', JStr ''g1'')],
              JObj [(''type'', JStr ''taxonomy_term--tags''), (''id'', JStr ''seen'')],
              JObj [(''type'', JStr ''taxonomy_term--tags''), (''id'', JStr ''g1'')]])]),
           (''paragraphs'', JObj [(''data'', JArr [
              JObj [(''type'', JStr ''paragraph--text''), (''id'', JStr ''x1'')]])])]"

definition landing_data :: json where
  "landing_data =
     JObj [(''type'', JStr ''node--landing''), (''id'', JStr ''n1''),
           (''attributes'', JObj [(''title'', JStr ''Landing'')]),
           (''relationships'', landing_relationships)]"

definition landing_payload :: json where
  "landing_payload = JObj [(''data'', landing_data)]"

definition landing_entity :: "nat drupalEntity" where
  "landing_entity =
     \<lparr> config = defaultConfig,
       api = scenario_api,
       res = landing_payload,
       data = landing_data,
       attrs = JObj [(''title'', JStr ''Landing'')],
       relationshipGroups = [''relationships''],
       fieldMap_memo = [],
       id_memo = JNull \<rparr>"

text \<open>
  A collaborator whose fetch of \<^verbatim>\<open>a1\<close> fails while every other fetch is still under way,
  and the page built with it.
\<close>

definition failing_api :: "nat api" where
  "failing_api =
     scenario_api \<lparr> getEntity := (\<lambda>l depth. if uuid l = JStr ''a1'' then Rejected else Pending) \<rparr>"

definition failing_page_entity :: "nat drupalEntity" where
  "failing_page_entity = page_entity \<lparr> api := failing_api \<rparr>"

section \<open>Properties\<close>

lemmas eval_defs =
  bindE_def constructor_def defaultConfig_def transform_def cleanFieldSet_def cleanFields_def
  keepsField_def
  fieldTests_def re_field_def re_drupal_internal_id_def re_named_def isId_def objSet_def
  arrayIndex_def digitVal_def digits10_def jsProp_def getData_def entity_def bundle_of_def typeSplit_def strAt_def
  entity_id_def entity_value_def field_def fieldMap_def isCollection_def makePath_def newMap_def
  relationshipFieldNames_def re_paragraphs_def getPath_def valueProcessors_default_def
  objectPrototypeMethods_def getFieldValue_def unwrapData_def isObjectType_def
  isRelationship_default_def isLower_def jsIndex_def keepPayload_def

subsection \<open>The article scenario\<close>

text \<open>
  Claim C1. For the entity constructed with the default configuration from the article
  (type \<^verbatim>\<open>node--article\<close>, attributes \<^verbatim>\<open>drupal_internal__nid = 42\<close> and
  \<^verbatim>\<open>field_title = "Hello"\<close>), \<^verbatim>\<open>value('field_title')\<close> is \<^verbatim>\<open>"Hello"\<close>, \<^verbatim>\<open>entity\<close> is
  \<^verbatim>\<open>"node"\<close> and \<^verbatim>\<open>bundle\<close> is \<^verbatim>\<open>"article"\<close>, as the claim says; but \<^verbatim>\<open>id\<close> is \<^verbatim>\<open>null\<close>, not
  42. The default transform keeps an attribute named \<^verbatim>\<open>drupal_internal_[a-z]?id\<close> (one
  underscore), so \<^verbatim>\<open>drupal_internal__nid\<close> is dropped before the \<^verbatim>\<open>id\<close> getter looks for
  \<^verbatim>\<open>drupal_internal__[a-z]?id\<close> (two underscores). The same holds for every payload
  (\<open>default_id_is_null\<close> below).
\<close>

theorem article_scenario_id_is_null:
  "bindE (constructor defaultConfig a article_payload) (\<lambda>e. entity_value e ''field_title'')
     = Inr (Plain (JStr ''Hello''))
   \<and> bindE (constructor defaultConfig a article_payload) entity = Inr (JStr ''node'')
   \<and> bindE (constructor defaultConfig a article_payload) bundle_of = Inr (JStr ''article'')
   \<and> bindE (constructor defaultConfig a article_payload) entity_id = Inr JNull
   \<and> bindE (constructor defaultConfig a article_payload) (\<lambda>e. Inr (attrs e))
     = Inr (JObj [(''field_title'', JStr ''Hello'')])"
  by (simp add: article_payload_def eval_defs)

subsection \<open>Absent attributes or relationships\<close>

text \<open>
  Claim C6. With the default configuration, constructing an entity from a resource
  without \<^verbatim>\<open>relationships\<close>, from one without \<^verbatim>\<open>attributes\<close>, or from a collection does
  not succeed: \<^verbatim>\<open>transform\<close> hands \<^verbatim>\<open>undefined\<close> to \<^verbatim>\<open>cleanFields\<close>, whose
  \<^verbatim>\<open>Object.keys(fields)\<close> raises a TypeError. The claim says the construction succeeds with
  an empty container, as the constructor's own default for \<^verbatim>\<open>attrs\<close> (line 19) and
  \<^verbatim>\<open>this.data[group] || []\<close> (line 191) do once the transform is out of the way (the last
  two lines, with \<^verbatim>\<open>cleanEntity: d => d\<close>). The same holds for every payload
  (\<open>default_transform_needs_both_mappings\<close> below).
\<close>

theorem default_construction_fails_on_absent_mapping:
  "constructor defaultConfig a no_relationships_payload = Inl TypeError
   \<and> constructor defaultConfig a no_attributes_payload = Inl TypeError
   \<and> constructor defaultConfig a collection_payload = Inl TypeError
   \<and> bindE (constructor (defaultConfig \<lparr> cleanEntity := keepPayload \<rparr>) a no_attributes_payload)
        (\<lambda>e. Inr (attrs e)) = Inr (JObj [])
   \<and> bindE (constructor (defaultConfig \<lparr> cleanEntity := keepPayload \<rparr>) a no_relationships_payload)
        (\<lambda>e. relationshipFieldNames e ''relationships'') = Inr []"
  by (simp add: no_relationships_payload_def no_attributes_payload_def collection_payload_def
      eval_defs)

subsection \<open>The scenario entities are the constructor's\<close>

lemma article_entity_constructed:
  "constructor defaultConfig scenario_api article_payload = Inr article_entity"
  by (simp add: article_payload_def article_entity_def eval_defs)

lemma collection_entity_constructed:
  "constructor (defaultConfig \<lparr> cleanEntity := keepPayload \<rparr>) scenario_api collection_payload
     = Inr collection_entity"
  by (simp add: collection_payload_def collection_entity_def eval_defs)

lemma page_entity_constructed:
  "constructor defaultConfig scenario_api page_payload = Inr page_entity"
  by (simp add: page_payload_def page_data_def page_relationships_def page_entity_def eval_defs)

lemma landing_entity_constructed:
  "constructor defaultConfig scenario_api landing_payload = Inr landing_entity"
  by (simp add: landing_payload_def landing_data_def landing_relationships_def landing_entity_def
      eval_defs)

lemma failing_page_entity_constructed:
  "constructor defaultConfig failing_api page_payload = Inr failing_page_entity"
  by (simp add: page_payload_def page_data_def page_relationships_def page_entity_def
      failing_page_entity_def eval_defs)

subsection \<open>The memos do not change what the getters return\<close>

lemma relationshipFieldNames_memo:
  "relationshipFieldNames (e \<lparr> fieldMap_memo := m \<rparr>) grp = relationshipFieldNames e grp"
  by (simp add: relationshipFieldNames_def)

lemma groupPaths_memo:
  "groupPaths (e \<lparr> fieldMap_memo := m \<rparr>) grps pairs = groupPaths e grps pairs"
  by (induction grps arbitrary: pairs) (simp_all add: relationshipFieldNames_memo)

lemma fieldMap_memo_stable:
  assumes "fieldMap e = Inr m"
  shows "fieldMap (fieldMap_stored e) = Inr m"
proof (cases "\<not> isCollection e \<and> fieldMap_memo e = []")
  case True
  show ?thesis
  proof (cases "m = []")
    case True
    then show ?thesis
      using assms \<open>\<not> isCollection e \<and> fieldMap_memo e = []\<close>
      by (simp add: fieldMap_stored_def fieldMap_def isCollection_def groupPaths_memo)
  next
    case False
    then show ?thesis
      using assms by (simp add: fieldMap_stored_def fieldMap_def isCollection_def)
  qed
next
  case False
  then show ?thesis
    using assms by (auto simp: fieldMap_stored_def fieldMap_def isCollection_def)
qed

lemma id_memo_stable:
  assumes "entity_id e = Inr v"
  shows "entity_id (id_stored e) = Inr v"
proof (cases "truthy v")
  case True
  then show ?thesis
    using assms by (simp add: id_stored_def entity_id_def)
next
  case False
  show ?thesis
  proof (cases "truthy (id_memo e)")
    case True
    then show ?thesis
      using assms by (simp add: id_stored_def entity_id_def)
  next
    case False
    then show ?thesis
      using assms \<open>\<not> truthy v\<close>
      by (auto simp: id_stored_def entity_id_def bindE_def split: sum.splits option.splits if_splits)
  qed
qed

subsection \<open>The field map\<close>

lemma makePath_foldl:
  "foldl (\<lambda>arr k. arr @ [(k, path @ [k])]) acc ks = acc @ map (\<lambda>k. (k, path @ [k])) ks"
  by (induction ks arbitrary: acc) auto

lemma makePath_map: "makePath ks path = map (\<lambda>k. (k, path @ [k])) ks"
  by (simp add: makePath_def makePath_foldl)

lemma map_of_foldl_update:
  "map_of (foldl (\<lambda>m p. AList.update (fst p) (snd p) m) m0 ps) = map_of m0 ++ map_of (rev ps)"
proof (induction ps arbitrary: m0)
  case Nil
  then show ?case by simp
next
  case (Cons p ps)
  show ?case
    by (cases p) (auto simp: Cons.IH update_conv' map_add_def fun_eq_iff split: option.splits)
qed

lemma map_of_newMap: "map_of (newMap ps) = map_of (rev ps)"
  by (simp add: newMap_def map_of_foldl_update)

lemma map_of_paths:
  "map_of (map (\<lambda>k. (k, path @ [k])) ks) k = (if k \<in> set ks then Some (path @ [k]) else None)"
  by (induction ks) auto

text \<open>
  Claim C10. When a name is both an attribute key and a relationship field name of the
  group (one that passes \<^verbatim>\<open>relationshipTests\<close>), the field map of a non-collection entity,
  built on first access, holds the relationship path \<^verbatim>\<open>[data, group, name]\<close> for it: the
  pairs of the attributes come first and \<^verbatim>\<open>new Map\<close> lets the later pair win.
\<close>

theorem relationship_path_takes_precedence:
  assumes "\<not> isCollection e" and "fieldMap_memo e = []" and "relationshipGroups e = [grp]"
    and "objectKeys (attrs e) = Inr ks" and "name \<in> set ks"
    and "relationshipFieldNames e grp = Inr names" and "name \<in> set names"
  shows "\<exists>m. fieldMap e = Inr m \<and> map_of m name = Some [''data'', grp, name]"
proof -
  let ?A = "map (\<lambda>k. (k, [''data'', ''attributes''] @ [k])) ks"
  let ?B = "map (\<lambda>k. (k, [''data'', grp] @ [k])) names"
  have fm: "fieldMap e = Inr (newMap (?A @ ?B))"
    using assms by (simp add: fieldMap_def bindE_def makePath_map)
  have "map_of (rev ?B) name = Some ([''data'', grp] @ [name])"
    using assms(7) unfolding rev_map by (subst map_of_paths) simp
  then have "map_of (rev (?A @ ?B)) name = Some ([''data'', grp] @ [name])"
    unfolding rev_append map_of_append by (rule map_add_find_right)
  then show ?thesis
    using fm by (simp add: map_of_newMap)
qed

theorem relationship_path_takes_precedence_witness:
  "constructor defaultConfig scenario_api page_payload = Inr page_entity
   \<and> \<not> isCollection page_entity
   \<and> objectKeys (attrs page_entity) = Inr [''title'', ''field_ref'']
   \<and> relationshipFieldNames page_entity ''relationships'' = Inr [''field_ref'', ''field_tags'']
   \<and> (\<exists>m. fieldMap page_entity = Inr m
          \<and> map_of m ''field_ref'' = Some [''data'', ''relationships'', ''field_ref''])"
proof -
  have names: "relationshipFieldNames page_entity ''relationships'' = Inr [''field_ref'', ''field_tags'']"
    by (simp add: page_entity_def page_data_def page_relationships_def eval_defs)
  have ks: "objectKeys (attrs page_entity) = Inr [''title'', ''field_ref'']"
    by (simp add: page_entity_def)
  have nc: "\<not> isCollection page_entity"
    by (simp add: page_entity_def page_data_def isCollection_def)
  have "\<exists>m. fieldMap page_entity = Inr m
          \<and> map_of m ''field_ref'' = Some [''data'', ''relationships'', ''field_ref'']"
    using relationship_path_takes_precedence [OF nc _ _ ks _ names]
    by (simp add: page_entity_def)
  then show ?thesis
    using names ks nc page_entity_constructed by simp
qed

subsection \<open>Unmapped field names\<close>

text \<open>
  Claim C5, as amended. For every entity whose resource has a string \<^verbatim>\<open>type\<close>, so that
  the \<^verbatim>\<open>entity\<close> getter returns a kind, and every name that is not in its field map,
  \<^verbatim>\<open>field(name)\<close> fails with the error whose message is
  \<^verbatim>\<open>The field (name) is not part of the entity (kind)\<close>.
\<close>

theorem field_not_found:
  assumes "fieldMap e = Inr m" and "map_of m name = None" and "entity e = Inr (JStr kind)"
  shows "field e name =
     Inl (Error (''The field ('' @ name @ '') is not part of the entity ('' @ kind @ '')''))"
  using assms by (simp add: field_def bindE_def notPartOfEntity_def)

theorem field_not_found_witness:
  "fieldMap article_entity = Inr [(''field_title'', [''data'', ''attributes'', ''field_title''])]
   \<and> entity article_entity = Inr (JStr ''node'')
   \<and> field article_entity ''nonexistent''
       = Inl (Error ''The field (nonexistent) is not part of the entity (node)'')"
proof -
  have fm: "fieldMap article_entity = Inr [(''field_title'', [''data'', ''attributes'', ''field_title''])]"
    by (simp add: article_entity_def eval_defs)
  have kind: "entity article_entity = Inr (JStr ''node'')"
    by (simp add: article_entity_def eval_defs)
  show ?thesis
    using field_not_found [OF fm _ kind, of "''nonexistent''"] fm kind by simp
qed

text \<open>
  Claim C5 as stated (every entity) fails on a collection, which is an entity with an
  empty field map and no kind: reading \<^verbatim>\<open>this.entity\<close> for the message is a TypeError,
  and that is what \<^verbatim>\<open>field('nonexistent')\<close> raises.
\<close>

theorem field_on_collection_counterexample:
  "constructor (defaultConfig \<lparr> cleanEntity := keepPayload \<rparr>) scenario_api collection_payload
     = Inr collection_entity
   \<and> isCollection collection_entity
   \<and> fieldMap collection_entity = Inr []
   \<and> field collection_entity ''nonexistent'' = Inl TypeError"
  by (simp add: collection_entity_constructed)
     (simp add: collection_entity_def collection_payload_def eval_defs)

subsection \<open>Kind and bundle\<close>

lemma jsSplit_nonempty: "jsSplit (a # sep) s \<noteq> []"
  by (induction s) (auto split: list.splits)

lemma joinWith_cons_head: "joinWith sep ((c # p) # ps) = c # joinWith sep (p # ps)"
  by (cases ps) auto

lemma joinWith_nil_head: "ps \<noteq> [] \<Longrightarrow> joinWith sep ([] # ps) = sep @ joinWith sep ps"
  by (cases ps) auto

text \<open>Joining the parts of a split with the separator gives the string back.\<close>

lemma join_split: "sep \<noteq> [] \<Longrightarrow> joinWith sep (jsSplit sep s) = s"
proof (induction sep s rule: jsSplit.induct)
  case (1 s)
  then show ?case by simp
next
  case (2 a sep)
  then show ?case by simp
next
  case (3 a sep c cs)
  show ?case
  proof (cases "take (Suc (length sep)) (c # cs) = a # sep")
    case True
    then have "joinWith (a # sep) (jsSplit (a # sep) (drop (length sep) cs)) = drop (length sep) cs"
      using 3 by simp
    moreover have "c # cs = (a # sep) @ drop (length sep) cs"
      using True by (metis append_take_drop_id drop_Suc_Cons)
    ultimately show ?thesis
      using True by (simp add: joinWith_nil_head jsSplit_nonempty del: joinWith.simps)
  next
    case False
    obtain p ps where sp: "jsSplit (a # sep) cs = p # ps"
      using jsSplit_nonempty [of a sep cs] by (cases "jsSplit (a # sep) cs") auto
    have ih: "joinWith (a # sep) (jsSplit (a # sep) cs) = cs"
      using 3(2) [OF False] by simp
    have "jsSplit (a # sep) (c # cs) = (c # p) # ps"
      using False sp by auto
    then show ?thesis
      using ih sp by (simp only: joinWith_cons_head)
  qed
qed

lemma two_parts_reconstruct:
  assumes "jsSplit ''--'' t = [k, b]"
  shows "k @ ''--'' @ b = t"
  using join_split [of "''--''" t] assms by simp

lemma occurrencesOf_drop: "occurrencesOf sep (drop n s) \<le> occurrencesOf sep s"
proof (induction s arbitrary: n)
  case Nil
  then show ?case by simp
next
  case (Cons c cs)
  show ?case
  proof (cases n)
    case 0
    then show ?thesis by simp
  next
    case (Suc m)
    then show ?thesis using Cons.IH [of m] by simp
  qed
qed

lemma no_occurrence_split: "occurrencesOf (a # sep) s = 0 \<Longrightarrow> jsSplit (a # sep) s = [s]"
  by (induction s) (auto split: if_splits)

lemma one_occurrence_split:
  "occurrencesOf (a # sep) s = 1 \<Longrightarrow> length (jsSplit (a # sep) s) = 2"
proof (induction s)
  case Nil
  then show ?case by simp
next
  case (Cons c cs)
  show ?case
  proof (cases "take (Suc (length sep)) (c # cs) = a # sep")
    case True
    then have "occurrencesOf (a # sep) cs = 0"
      using Cons.prems by simp
    then have "occurrencesOf (a # sep) (drop (length sep) cs) = 0"
      using occurrencesOf_drop [of "a # sep" "length sep" cs] by simp
    then show ?thesis
      using True by (simp add: no_occurrence_split)
  next
    case False
    then have "occurrencesOf (a # sep) cs = 1"
      using Cons.prems by (auto split: if_splits)
    then have "length (jsSplit (a # sep) cs) = 2"
      by (rule Cons.IH)
    then show ?thesis
      using False by (auto split: list.splits)
  qed
qed

text \<open>
  Claim C8. For every entity of a single resource (\<^verbatim>\<open>res.data\<close> is there and its \<^verbatim>\<open>type\<close>
  is a string) whose type holds the separator \<^verbatim>\<open>--\<close> at exactly one position, the
  \<^verbatim>\<open>entity\<close> getter and the \<^verbatim>\<open>bundle\<close> getter return strings, and the first, \<^verbatim>\<open>--\<close> and
  the second, concatenated, are the type. (By \<open>two_parts_reconstruct\<close> the same holds
  whenever the split has two parts.)
\<close>

theorem entity_bundle_reconstruct_type:
  assumes "jsGet (res e) ''data'' = Inr d" and "jsGet d ''type'' = Inr (JStr t)"
    and "occurrencesOf ''--'' t = 1"
  shows "\<exists>k b. entity e = Inr (JStr k) \<and> bundle_of e = Inr (JStr b) \<and> k @ ''--'' @ b = t"
proof -
  have "length (jsSplit ''--'' t) = 2"
    using assms(3) by (rule one_occurrence_split)
  then obtain k b where parts: "jsSplit ''--'' t = [k, b]"
    by (auto simp: numeral_2_eq_2 length_Suc_conv)
  then have "k @ ''--'' @ b = t"
    by (rule two_parts_reconstruct)
  moreover have "entity e = Inr (JStr k)" and "bundle_of e = Inr (JStr b)"
    using assms(1,2) parts by (simp_all add: entity_def bundle_of_def typeSplit_def bindE_def strAt_def)
  ultimately show ?thesis by blast
qed

theorem entity_bundle_reconstruct_type_witness:
  "jsGet (res article_entity) ''data'' = Inr (data article_entity)
   \<and> jsGet (data article_entity) ''type'' = Inr (JStr ''node--article'')
   \<and> occurrencesOf ''--'' ''node--article'' = 1
   \<and> entity article_entity = Inr (JStr ''node'')
   \<and> bundle_of article_entity = Inr (JStr ''article'')
   \<and> (\<exists>k b. entity article_entity = Inr (JStr k) \<and> bundle_of article_entity = Inr (JStr b)
          \<and> k @ ''--'' @ b = ''node--article'')"
proof -
  have d: "jsGet (res article_entity) ''data'' = Inr (data article_entity)"
    by (simp add: article_entity_def)
  have t: "jsGet (data article_entity) ''type'' = Inr (JStr ''node--article'')"
    by (simp add: article_entity_def)
  have one: "occurrencesOf ''--'' ''node--article'' = 1"
    by simp
  have "entity article_entity = Inr (JStr ''node'')"
    and "bundle_of article_entity = Inr (JStr ''article'')"
    by (simp_all add: article_entity_def eval_defs)
  then show ?thesis
    using entity_bundle_reconstruct_type [OF d t one] d t one by simp
qed

subsection \<open>The library wrapper\<close>

text \<open>
  Claim C2. When the value a field structure resolves to (after unwrapping \<^verbatim>\<open>data\<close> and
  indexing) passes the relationship predicate and its type splits into the kind
  \<^verbatim>\<open>paragraph\<close> and the bundle \<^verbatim>\<open>from_library\<close>, \<^verbatim>\<open>getFieldValue\<close> returns what
  \<^verbatim>\<open>value('paragraphs')\<close> returns on what \<^verbatim>\<open>value('field_reusable_paragraph')\<close> returns
  on the entity that the collaborator's \<^verbatim>\<open>getRelationship\<close> gives for the reference,
  not that entity.
\<close>

theorem library_reference_double_hop:
  assumes "isRelationship (config e) (unwrapData structure index) = Inr True"
    and "typeSplit (unwrapData structure index) = Inr (''paragraph'' # ''from_library'' # rest)"
  shows "getFieldValue e structure index =
     bindE (getRelationship (api e) (unwrapData structure index)) (\<lambda>wrapper.
     bindE (callValue (api e) wrapper ''field_reusable_paragraph'') (\<lambda>reusable.
       callValue (api e) reusable ''paragraphs''))"
  using assms by (simp add: getFieldValue_def bindE_def strAt_def)

theorem library_reference_double_hop_witness:
  "isRelationship (config article_entity) (unwrapData library_field 0) = Inr True
   \<and> typeSplit (unwrapData library_field 0) = Inr [''paragraph'', ''from_library'']
   \<and> getRelationship (api article_entity) (unwrapData library_field 0) = Inr (Related 1)
   \<and> getFieldValue article_entity library_field 0 = Inr (Related 3)"
proof -
  have rel: "isRelationship (config article_entity) (unwrapData library_field 0) = Inr True"
    by (simp add: library_field_def article_entity_def eval_defs)
  have parts: "typeSplit (unwrapData library_field 0) = Inr (''paragraph'' # ''from_library'' # [])"
    by (simp add: library_field_def eval_defs)
  have wrapper: "getRelationship (api article_entity) (unwrapData library_field 0) = Inr (Related 1)"
    by (simp add: library_field_def article_entity_def scenario_api_def eval_defs)
  show ?thesis
    using library_reference_double_hop [OF rel parts] rel parts wrapper
    by (simp add: article_entity_def scenario_api_def bindE_def)
qed

subsection \<open>The transformer: keys that are kept\<close>

lemma digit_in_digits10: "n < 10 \<Longrightarrow> digits10 ! n \<in> set digits10"
  by (rule nth_mem) (simp add: digits10_def)

lemma showNat_digits: "showNat n \<noteq> [] \<and> set (showNat n) \<subseteq> set digits10"
proof (induction n rule: showNat.induct)
  case (1 n)
  show ?case
  proof (cases "n < 10")
    case True
    then show ?thesis
      using digit_in_digits10 [of n] by (subst (1 2) showNat.simps) simp
  next
    case False
    then show ?thesis
      using 1 digit_in_digits10 [of "n mod 10"] by (subst (1 2) showNat.simps) simp
  qed
qed

lemma stripPrefix_hd: "stripPrefix (p # ps) k = Some r \<Longrightarrow> k \<noteq> [] \<and> hd k = p"
  by (cases k) (auto split: if_splits)

lemma keepsField_hd:
  assumes "keepsField k"
  shows "k \<noteq> [] \<and> hd k \<in> set ''fdltsp''"
proof -
  have "re_field k \<or> re_drupal_internal_id k \<or> re_named k"
    using assms by (simp add: keepsField_def fieldTests_def)
  then show ?thesis
  proof (elim disjE)
    assume "re_field k"
    then obtain r where "stripPrefix ''field_'' k = Some r"
      by (auto simp: re_field_def)
    then show ?thesis using stripPrefix_hd by fastforce
  next
    assume "re_drupal_internal_id k"
    then obtain r where "stripPrefix ''drupal_internal_'' k = Some r"
      by (auto simp: re_drupal_internal_id_def split: option.splits)
    then show ?thesis using stripPrefix_hd by fastforce
  next
    assume "re_named k"
    then show ?thesis by (auto simp: re_named_def)
  qed
qed

lemma keepsField_not_numeral: "\<not> keepsField (showNat n)"
proof
  assume "keepsField (showNat n)"
  then have "hd (showNat n) \<in> set ''fdltsp''"
    using keepsField_hd by blast
  moreover have "hd (showNat n) \<in> set digits10"
    using showNat_digits [of n] by (cases "showNat n") auto
  ultimately show False
    by (auto simp: digits10_def)
qed

lemma keepsField_not_index: "keepsField k \<Longrightarrow> arrayIndex k = None"
proof -
  assume a: "keepsField k"
  then obtain c cs where k: "k = c # cs" and c: "c \<in> set ''fdltsp''"
    using keepsField_hd [of k] by (cases k) auto
  have "digitVal c = None"
    using c by (auto simp: digitVal_def digits10_def)
  then show ?thesis
    by (simp add: arrayIndex_def k)
qed


text \<open>
  No key passes both the transform's tests and the \<^verbatim>\<open>id\<close> getter's test: after
  \<^verbatim>\<open>drupal_internal_\<close> the first asks for an optional letter and \<^verbatim>\<open>id\<close>, the second for
  another underscore.
\<close>

lemma stripPrefix_append: "stripPrefix p k = Some r \<Longrightarrow> k = p @ r"
  by (induction p k rule: stripPrefix.induct) (auto split: if_splits)

lemma kept_key_is_no_id:
  assumes "keepsField k"
  shows "\<not> isId k"
proof
  assume "isId k"
  then obtain r where r: "stripPrefix ''drupal_internal__'' k = Some r"
    by (auto simp: isId_def split: option.splits)
  then have k: "k = ''drupal_internal__'' @ r"
    by (rule stripPrefix_append)
  have "re_field k \<or> re_drupal_internal_id k \<or> re_named k"
    using assms by (simp add: keepsField_def fieldTests_def)
  then show False
    by (auto simp: k re_field_def re_drupal_internal_id_def re_named_def isLower_def)
qed

subsection \<open>The transformer: cleanField is idempotent\<close>

definition dropsLinks :: "(string \<times> json) list \<Rightarrow> bool" where
  "dropsLinks kvs = (truthy (jsProp (JObj kvs) ''links'')
      \<and> truthy (jsProp (jsProp (JObj kvs) ''links'') ''self''))"

definition cleanData :: "string \<times> json \<Rightarrow> string \<times> json" where
  "cleanData p = (if fst p = ''data'' \<and> isArray (snd p) then (fst p, cleanField (snd p)) else p)"

lemma cleanField_obj:
  "cleanField (JObj kvs) =
     JObj (map cleanData (if dropsLinks kvs then AList.delete ''links'' kvs else kvs))"
  by (auto simp: dropsLinks_def cleanData_def split_def)

lemma map_of_cleanData: "k \<noteq> ''data'' \<Longrightarrow> map_of (map cleanData kvs) k = map_of kvs k"
  by (induction kvs) (auto simp: cleanData_def)

lemma dropsLinks_cleanData: "dropsLinks (map cleanData kvs) = dropsLinks kvs"
  by (simp add: dropsLinks_def jsProp_def map_of_cleanData)

lemma not_dropsLinks_delete: "\<not> dropsLinks (AList.delete ''links'' kvs)"
  by (simp add: dropsLinks_def jsProp_def delete_conv')

lemma isArray_cleanField: "isArray (cleanField v) = isArray v"
  by (cases v) (auto simp: cleanField_obj simp del: cleanField.simps(1))

lemma cleanField_idem: "cleanField (cleanField v) = cleanField v"
proof (induction v rule: cleanField.induct)
  case (1 kvs)
  let ?kvs = "if dropsLinks kvs then AList.delete ''links'' kvs else kvs"
  have ih: "\<And>k y. (k, y) \<in> set ?kvs \<Longrightarrow> k = ''data'' \<Longrightarrow> isArray y
      \<Longrightarrow> cleanField (cleanField y) = cleanField y"
    using 1 by (simp add: dropsLinks_def)
  have nd: "\<not> dropsLinks (map cleanData ?kvs)"
    by (simp add: dropsLinks_cleanData not_dropsLinks_delete)
  have "map cleanData (map cleanData ?kvs) = map cleanData ?kvs"
    unfolding map_map
  proof (rule map_cong [OF refl])
    fix p assume p: "p \<in> set ?kvs"
    show "(cleanData \<circ> cleanData) p = cleanData p"
      using ih [of "fst p" "snd p"] p
      by (cases p) (auto simp: cleanData_def isArray_cleanField)
  qed
  then show ?case
    using nd by (simp add: cleanField_obj del: cleanField.simps(1))
next
  case (2 xs)
  then show ?case by (simp cong: map_cong)
qed simp_all

subsection \<open>The transformer: cleanFields is idempotent\<close>

lemma objSet_plain:
  "arrayIndex k = None \<Longrightarrow>
     objSet k v kvs = (if k \<in> fst ` set kvs then AList.update k v kvs else kvs @ [(k, v)])"
  by (simp add: objSet_def)

definition cleanedFields :: "(string \<times> json) list \<Rightarrow> bool" where
  "cleanedFields cs = (distinct (map fst cs)
     \<and> list_all (\<lambda>p. keepsField (fst p) \<and> cleanField (snd p) = snd p) cs)"

lemma cleanedFields_update:
  assumes "cleanedFields cs" and "keepsField k" and "cleanField v = v"
  shows "cleanedFields (objSet k v cs)"
proof (cases "k \<in> fst ` set cs")
  case True
  have "list_all (\<lambda>p. keepsField (fst p) \<and> cleanField (snd p) = snd p) (AList.update k v cs)"
    using assms by (induction cs) (auto simp: cleanedFields_def)
  then show ?thesis
    using assms True
    by (simp add: objSet_plain keepsField_not_index cleanedFields_def distinct_update)
next
  case False
  then show ?thesis
    using assms by (auto simp: objSet_plain keepsField_not_index cleanedFields_def)
qed

lemma cleanedFields_foldl:
  assumes "cleanedFields acc"
  shows "cleanedFields (foldl (\<lambda>g k. objSet k (cleanField (h k)) g) acc (filter keepsField ks))"
  using assms
proof (induction ks arbitrary: acc)
  case Nil
  then show ?case by simp
next
  case (Cons k ks)
  then show ?case
    by (auto simp: cleanedFields_update cleanField_idem)
qed

lemma foldl_objSet_append:
  assumes "distinct (map fst cs)" and "fst ` set acc \<inter> fst ` set cs = {}"
    and "list_all (\<lambda>p. arrayIndex (fst p) = None \<and> h (fst p) = snd p) cs"
  shows "foldl (\<lambda>g k. objSet k (h k) g) acc (map fst cs) = acc @ cs"
  using assms
proof (induction cs arbitrary: acc)
  case Nil
  then show ?case by simp
next
  case (Cons p cs)
  have step: "objSet (fst p) (h (fst p)) acc = acc @ [p]"
    using Cons.prems by (cases p) (auto simp: objSet_plain)
  have "foldl (\<lambda>g k. objSet k (h k) g) (acc @ [p]) (map fst cs) = (acc @ [p]) @ cs"
    using Cons.prems by (intro Cons.IH) auto
  then show ?case
    using step by simp
qed

lemma cleanedFields_fixed:
  assumes "cleanedFields cs"
  shows "cleanFields (JObj cs) = Inr (JObj cs)"
proof -
  have keep: "filter keepsField (map fst cs) = map fst cs"
    using assms by (induction cs) (auto simp: cleanedFields_def)
  have look: "list_all (\<lambda>p. arrayIndex (fst p) = None
      \<and> cleanField (jsProp (JObj cs) (fst p)) = snd p) cs"
    using assms
    by (auto simp: cleanedFields_def list_all_iff jsProp_def keepsField_not_index)
  have "foldl (\<lambda>g k. objSet k (cleanField (jsProp (JObj cs) k)) g) [] (map fst cs) = [] @ cs"
    using assms look by (intro foldl_objSet_append) (auto simp: cleanedFields_def)
  then show ?thesis
    by (simp add: cleanFields_def bindE_def keep)
qed

lemma cleanFields_result:
  assumes "cleanFields f = Inr c"
  shows "\<exists>cs. c = JObj cs \<and> cleanedFields cs"
proof -
  have base: "cleanedFields []"
    by (simp add: cleanedFields_def)
  obtain ks where ks: "objectKeys f = Inr ks"
    using assms by (cases "objectKeys f") (auto simp: cleanFields_def bindE_def)
  then have "c = JObj (foldl (\<lambda>g k. objSet k (cleanField (jsProp f k)) g) [] (filter keepsField ks))"
    using assms by (simp add: cleanFields_def bindE_def)
  then show ?thesis
    using cleanedFields_foldl [OF base] by blast
qed

lemma cleanFields_idem: "cleanFields f = Inr c \<Longrightarrow> cleanFields c = Inr c"
  using cleanFields_result cleanedFields_fixed by blast


subsection \<open>The transformer: transform is idempotent\<close>

lemma cleanFieldSet_result:
  assumes "cleanFieldSet d k = Inr d'" and "k = ''attributes'' \<or> k = ''relationships''"
  shows "\<exists>kvs c. d = JObj kvs \<and> k \<in> fst ` set kvs \<and> cleanedFields c
     \<and> d' = JObj (AList.update k (JObj c) kvs)"
proof -
  have idx: "arrayIndex k = None" and len: "k \<noteq> ''length''"
    using assms(2) by (auto simp: arrayIndex_def digitVal_def digits10_def)
  obtain f where f: "jsGet d k = Inr f"
    using assms(1) by (cases "jsGet d k") (auto simp: cleanFieldSet_def bindE_def)
  obtain c0 where c0: "cleanFields f = Inr c0"
    using assms(1) f by (cases "cleanFields f") (auto simp: cleanFieldSet_def bindE_def)
  obtain c where c: "c0 = JObj c" "cleanedFields c"
    using cleanFields_result [OF c0] by blast
  have asg: "assignField d k (JObj c) = Inr d'"
    using assms(1) f c0 c by (simp add: cleanFieldSet_def bindE_def)
  have keys: "objectKeys f \<noteq> Inl TypeError"
    using c0 by (auto simp: cleanFields_def bindE_def)
  then have fdef: "f \<noteq> JUndef" "f \<noteq> JNull"
    by auto
  show ?thesis
  proof (cases d)
    case (JObj kvs)
    then have "map_of kvs k = Some f"
      using f fdef by (auto split: option.splits)
    then have key: "k \<in> fst ` set kvs"
      by (metis domI dom_map_of_conv_image_fst)
    then have "d' = JObj (AList.update k (JObj c) kvs)"
      using asg JObj idx by (simp add: objSet_def)
    then show ?thesis
      using JObj c key by blast
  qed (use f fdef idx len in \<open>auto\<close>)
qed

lemma cleanFieldSet_fixed:
  assumes "map_of kvs k = Some (JObj c)" and "cleanedFields c"
  shows "cleanFieldSet (JObj kvs) k = Inr (JObj kvs)"
proof -
  have "k \<in> fst ` set kvs"
    using assms(1) by (metis domI dom_map_of_conv_image_fst)
  then show ?thesis
    using assms
    by (simp add: cleanFieldSet_def bindE_def cleanedFields_fixed objSet_def update_triv)
qed

lemma delete_fixed:
  assumes "a \<noteq> k"
  shows "AList.delete a (AList.update k v (AList.delete b (AList.delete a al)))
     = AList.update k v (AList.delete b (AList.delete a al))"
proof -
  have "a \<notin> fst ` set (AList.delete b (AList.delete a al))"
    using delete_notin_dom [of a al] dom_delete_subset [of b "AList.delete a al"] by blast
  then have "a \<notin> fst ` set (AList.update k v (AList.delete b (AList.delete a al)))"
    using assms by (simp add: dom_update)
  then show ?thesis
    by (rule delete_id)
qed

text \<open>
  Claim C7. The default transform is idempotent: whenever \<^verbatim>\<open>transform\<close> returns an
  output for a payload, \<^verbatim>\<open>transform\<close> of that output returns the output unchanged.
  (It returns exactly for the payloads whose \<^verbatim>\<open>data\<close> is an object with both field
  sets, see \<open>transform_returns\<close> and \<open>default_transform_needs_both_mappings\<close> below.)
\<close>

theorem transform_idempotent:
  assumes "transform r = Inr y"
  shows "transform y = Inr y"
proof -
  obtain res1 where res1: "jsDelete ''jsonapi'' r = Inr res1"
    using assms by (cases "jsDelete ''jsonapi'' r") (auto simp: transform_def bindE_def)
  obtain res2 where res2: "jsDelete ''links'' res1 = Inr res2"
    using assms res1 by (cases "jsDelete ''links'' res1") (auto simp: transform_def bindE_def)
  obtain d0 where d0: "jsGet res2 ''data'' = Inr d0"
    using assms res1 res2 by (cases "jsGet res2 ''data''") (auto simp: transform_def bindE_def)
  let ?drop = "truthy d0 \<and> truthy (jsProp d0 ''links'')"
  obtain d1 where d1: "(if ?drop then jsDelete ''links'' d0 else Inr d0) = Inr d1"
    using assms res1 res2 d0
    by (cases "if ?drop then jsDelete ''links'' d0 else Inr d0") (auto simp: transform_def bindE_def)
  obtain d2 where d2: "cleanFieldSet d1 ''attributes'' = Inr d2"
    using assms res1 res2 d0 d1
    by (cases "cleanFieldSet d1 ''attributes''") (auto simp: transform_def bindE_def)
  obtain d3 where d3: "cleanFieldSet d2 ''relationships'' = Inr d3"
    using assms res1 res2 d0 d1 d2
    by (cases "cleanFieldSet d2 ''relationships''") (auto simp: transform_def bindE_def)
  have y: "y = withData res2 d3"
    using assms res1 res2 d0 d1 d2 d3 by (simp add: transform_def bindE_def)
  obtain kvs1 ca where a: "d1 = JObj kvs1" "cleanedFields ca"
      "d2 = JObj (AList.update ''attributes'' (JObj ca) kvs1)"
    using cleanFieldSet_result [OF d2] by auto
  obtain kvs2 cr where b: "d2 = JObj kvs2" "cleanedFields cr"
      "d3 = JObj (AList.update ''relationships'' (JObj cr) kvs2)"
    using cleanFieldSet_result [OF d3] by auto
  let ?kvs3 = "AList.update ''relationships'' (JObj cr) (AList.update ''attributes'' (JObj ca) kvs1)"
  have d3_eq: "d3 = JObj ?kvs3"
    using a b by simp
  obtain kvs0 where kvs0: "d0 = JObj kvs0"
    using d1 a(1) by (cases d0) (auto split: if_splits)
  have links1: "\<not> truthy (jsProp d1 ''links'')"
    using d1 kvs0 by (auto simp: jsProp_def delete_conv' split: if_splits)
  have links3: "\<not> truthy (jsProp d3 ''links'')"
    using links1 a(1) by (simp add: d3_eq jsProp_def update_conv')
  have no_index: "arrayIndex ''data'' = None"
    by (simp add: arrayIndex_def digitVal_def digits10_def)
  obtain r0 where r0: "r = JObj r0"
    using res1 res2 d0 kvs0 no_index by (cases r) (auto split: if_splits option.splits)
  have res2_eq: "res2 = JObj (AList.delete ''links'' (AList.delete ''jsonapi'' r0))"
    using res1 res2 r0 by auto
  let ?r2 = "AList.delete ''links'' (AList.delete ''jsonapi'' r0)"
  have y_eq: "y = JObj (AList.update ''data'' d3 ?r2)"
    using y res2_eq by simp
  have del1: "AList.delete ''jsonapi'' (AList.update ''data'' d3 ?r2) = AList.update ''data'' d3 ?r2"
    by (rule delete_fixed) simp
  have del2: "AList.delete ''links'' (AList.update ''data'' d3 ?r2) = AList.update ''data'' d3 ?r2"
    using delete_fixed [of "''links''" "''data''" d3 "''jsonapi''" r0]
    by (simp add: delete_twist)
  have get: "jsGet y ''data'' = Inr d3"
    by (simp add: y_eq update_conv')
  have fix_a: "cleanFieldSet d3 ''attributes'' = Inr d3"
    unfolding d3_eq using a(2) by (intro cleanFieldSet_fixed) (simp_all add: update_conv')
  have fix_r: "cleanFieldSet d3 ''relationships'' = Inr d3"
    unfolding d3_eq using b(2) by (intro cleanFieldSet_fixed) (simp_all add: update_conv')
  have "transform y = Inr (withData y d3)"
    using get links3 fix_a fix_r del1 del2
    by (simp add: transform_def bindE_def y_eq)
  then show ?thesis
    by (simp add: y_eq)
qed

theorem transform_idempotent_witness:
  "transform raw_payload = Inr cleaned_payload \<and> transform cleaned_payload = Inr cleaned_payload"
proof -
  have first: "transform raw_payload = Inr cleaned_payload"
    by (simp add: raw_payload_def cleaned_payload_def eval_defs)
  show ?thesis
    using transform_idempotent [OF first] first by simp
qed

subsection \<open>What the default transform accepts and returns\<close>

text \<open>
  Whenever the default transform returns, its output holds a cleaned \<^verbatim>\<open>attributes\<close> and a
  cleaned \<^verbatim>\<open>relationships\<close> object under \<^verbatim>\<open>data\<close>.
\<close>

lemma transform_shape:
  assumes "transform r = Inr y"
  shows "\<exists>ys kvs ca cr. y = JObj ys \<and> map_of ys ''data'' = Some (JObj kvs)
     \<and> map_of kvs ''attributes'' = Some (JObj ca) \<and> cleanedFields ca
     \<and> map_of kvs ''relationships'' = Some (JObj cr) \<and> cleanedFields cr"
proof -
  obtain res1 where res1: "jsDelete ''jsonapi'' r = Inr res1"
    using assms by (cases "jsDelete ''jsonapi'' r") (auto simp: transform_def bindE_def)
  obtain res2 where res2: "jsDelete ''links'' res1 = Inr res2"
    using assms res1 by (cases "jsDelete ''links'' res1") (auto simp: transform_def bindE_def)
  obtain d0 where d0: "jsGet res2 ''data'' = Inr d0"
    using assms res1 res2 by (cases "jsGet res2 ''data''") (auto simp: transform_def bindE_def)
  let ?drop = "truthy d0 \<and> truthy (jsProp d0 ''links'')"
  obtain d1 where d1: "(if ?drop then jsDelete ''links'' d0 else Inr d0) = Inr d1"
    using assms res1 res2 d0
    by (cases "if ?drop then jsDelete ''links'' d0 else Inr d0") (auto simp: transform_def bindE_def)
  obtain d2 where d2: "cleanFieldSet d1 ''attributes'' = Inr d2"
    using assms res1 res2 d0 d1
    by (cases "cleanFieldSet d1 ''attributes''") (auto simp: transform_def bindE_def)
  obtain d3 where d3: "cleanFieldSet d2 ''relationships'' = Inr d3"
    using assms res1 res2 d0 d1 d2
    by (cases "cleanFieldSet d2 ''relationships''") (auto simp: transform_def bindE_def)
  have y: "y = withData res2 d3"
    using assms res1 res2 d0 d1 d2 d3 by (simp add: transform_def bindE_def)
  obtain kvs1 ca where a: "d1 = JObj kvs1" "cleanedFields ca"
      "d2 = JObj (AList.update ''attributes'' (JObj ca) kvs1)"
    using cleanFieldSet_result [OF d2] by auto
  obtain kvs2 cr where b: "d2 = JObj kvs2" "cleanedFields cr"
      "d3 = JObj (AList.update ''relationships'' (JObj cr) kvs2)"
    using cleanFieldSet_result [OF d3] by auto
  let ?kvs3 = "AList.update ''relationships'' (JObj cr) (AList.update ''attributes'' (JObj ca) kvs1)"
  have d3_eq: "d3 = JObj ?kvs3"
    using a b by simp
  obtain kvs0 where kvs0: "d0 = JObj kvs0"
    using d1 a(1) by (cases d0) (auto split: if_splits)
  have no_index: "arrayIndex ''data'' = None"
    by (simp add: arrayIndex_def digitVal_def digits10_def)
  obtain r2 where r2: "res2 = JObj r2"
    using d0 kvs0 no_index by (cases res2) (auto split: if_splits option.splits)
  have "y = JObj (AList.update ''data'' d3 r2)"
    by (simp add: y r2)
  moreover have "map_of (AList.update ''data'' d3 r2) ''data'' = Some (JObj ?kvs3)"
    by (simp add: d3_eq update_conv')
  moreover have "map_of ?kvs3 ''attributes'' = Some (JObj ca)"
    and "map_of ?kvs3 ''relationships'' = Some (JObj cr)"
    by (simp_all add: update_conv')
  ultimately show ?thesis
    using a(2) b(2) by blast
qed

text \<open>
  So, for every payload, the \<^verbatim>\<open>id\<close> of an entity built with the default configuration is
  \<^verbatim>\<open>null\<close>: no kept attribute key is one the getter looks for.
\<close>

lemma cleaned_keys_no_id: "cleanedFields cs \<Longrightarrow> find isId (map fst cs) = None"
  by (induction cs) (auto simp: cleanedFields_def kept_key_is_no_id)

lemma default_id_is_null:
  assumes "constructor defaultConfig a payload = Inr e"
  shows "entity_id e = Inr JNull"
proof -
  obtain y where y: "transform payload = Inr y"
    using assms by (cases "transform payload") (auto simp: constructor_def defaultConfig_def bindE_def)
  obtain ys kvs ca cr where shape: "y = JObj ys" "map_of ys ''data'' = Some (JObj kvs)"
      "map_of kvs ''attributes'' = Some (JObj ca)" "cleanedFields ca"
    using transform_shape [OF y] by blast
  obtain d where d: "getData y = Inr d"
    using assms y by (cases "getData y") (auto simp: constructor_def defaultConfig_def bindE_def)
  have "attrs e = JObj ca" and "id_memo e = JNull"
    using assms y d shape(1,2,3)
    by (auto simp: constructor_def defaultConfig_def bindE_def jsProp_def)
  then show ?thesis
    using shape(4) by (simp add: entity_id_def bindE_def cleaned_keys_no_id)
qed


text \<open>
  The default transform returns for every payload whose \<^verbatim>\<open>data\<close> is an object with an
  \<^verbatim>\<open>attributes\<close> and a \<^verbatim>\<open>relationships\<close> member, neither \<^verbatim>\<open>null\<close>.
\<close>

lemma cleanFields_total: "f \<noteq> JUndef \<Longrightarrow> f \<noteq> JNull \<Longrightarrow> \<exists>c. cleanFields f = Inr c"
  by (cases f) (simp_all add: cleanFields_def bindE_def)

lemma transform_returns:
  assumes "map_of r0 ''data'' = Some (JObj kvs0)"
    and "map_of kvs0 ''attributes'' = Some f" and "f \<noteq> JUndef" and "f \<noteq> JNull"
    and "map_of kvs0 ''relationships'' = Some g" and "g \<noteq> JUndef" and "g \<noteq> JNull"
  shows "\<exists>y. transform (JObj r0) = Inr y"
proof -
  let ?kvs1 = "if truthy (jsProp (JObj kvs0) ''links'') then AList.delete ''links'' kvs0 else kvs0"
  have at: "map_of ?kvs1 ''attributes'' = Some f" and rl: "map_of ?kvs1 ''relationships'' = Some g"
    using assms(2,5) by (simp_all add: delete_conv')
  obtain ca where ca: "cleanFields f = Inr ca"
    using cleanFields_total [OF assms(3,4)] by blast
  obtain cr where cr: "cleanFields g = Inr cr"
    using cleanFields_total [OF assms(6,7)] by blast
  have idx: "arrayIndex ''attributes'' = None"
    by (simp add: arrayIndex_def digitVal_def digits10_def)
  have in1: "''attributes'' \<in> fst ` set ?kvs1"
    using at by (metis domI dom_map_of_conv_image_fst)
  have s1: "cleanFieldSet (JObj ?kvs1) ''attributes''
      = Inr (JObj (AList.update ''attributes'' ca ?kvs1))"
    using at ca in1 by (simp add: cleanFieldSet_def bindE_def objSet_def)
  let ?kvs2 = "AList.update ''attributes'' ca ?kvs1"
  have rl2: "map_of ?kvs2 ''relationships'' = Some g"
    using rl by (simp add: update_conv')
  then have in2: "''relationships'' \<in> fst ` set ?kvs2"
    by (metis domI dom_map_of_conv_image_fst)
  have s2: "cleanFieldSet (JObj ?kvs2) ''relationships''
      = Inr (JObj (AList.update ''relationships'' cr ?kvs2))"
    using rl2 cr in2 by (simp add: cleanFieldSet_def bindE_def objSet_def)
  have "jsGet (JObj (AList.delete ''links'' (AList.delete ''jsonapi'' r0))) ''data'' = Inr (JObj kvs0)"
    using assms(1) by (simp add: delete_conv')
  then show ?thesis
    using s1 s2 by (auto simp: transform_def bindE_def)
qed

text \<open>
  And the default transform returns only for a payload whose \<^verbatim>\<open>data\<close> is an object
  that has both \<^verbatim>\<open>attributes\<close> and \<^verbatim>\<open>relationships\<close>: never for a resource that lacks
  one of them, nor for a collection.
\<close>

lemma default_transform_needs_both_mappings:
  assumes "transform r = Inr y"
  shows "\<exists>kvs0. jsGet r ''data'' = Inr (JObj kvs0)
     \<and> ''attributes'' \<in> fst ` set kvs0 \<and> ''relationships'' \<in> fst ` set kvs0"
proof -
  obtain res1 where res1: "jsDelete ''jsonapi'' r = Inr res1"
    using assms by (cases "jsDelete ''jsonapi'' r") (auto simp: transform_def bindE_def)
  obtain res2 where res2: "jsDelete ''links'' res1 = Inr res2"
    using assms res1 by (cases "jsDelete ''links'' res1") (auto simp: transform_def bindE_def)
  obtain d0 where d0: "jsGet res2 ''data'' = Inr d0"
    using assms res1 res2 by (cases "jsGet res2 ''data''") (auto simp: transform_def bindE_def)
  let ?drop = "truthy d0 \<and> truthy (jsProp d0 ''links'')"
  obtain d1 where d1: "(if ?drop then jsDelete ''links'' d0 else Inr d0) = Inr d1"
    using assms res1 res2 d0
    by (cases "if ?drop then jsDelete ''links'' d0 else Inr d0") (auto simp: transform_def bindE_def)
  obtain d2 where d2: "cleanFieldSet d1 ''attributes'' = Inr d2"
    using assms res1 res2 d0 d1
    by (cases "cleanFieldSet d1 ''attributes''") (auto simp: transform_def bindE_def)
  obtain d3 where d3: "cleanFieldSet d2 ''relationships'' = Inr d3"
    using assms res1 res2 d0 d1 d2
    by (cases "cleanFieldSet d2 ''relationships''") (auto simp: transform_def bindE_def)
  obtain kvs1 ca where a: "d1 = JObj kvs1" "''attributes'' \<in> fst ` set kvs1"
      "d2 = JObj (AList.update ''attributes'' (JObj ca) kvs1)"
    using cleanFieldSet_result [OF d2] by auto
  obtain kvs2 cr where b: "d2 = JObj kvs2" "''relationships'' \<in> fst ` set kvs2"
    using cleanFieldSet_result [OF d3] by auto
  have rel1: "''relationships'' \<in> fst ` set kvs1"
    using a(3) b by (auto simp: dom_update)
  obtain kvs0 where kvs0: "d0 = JObj kvs0"
    using d1 a(1) by (cases d0) (auto split: if_splits)
  have "fst ` set kvs1 \<subseteq> fst ` set kvs0"
    using d1 a(1) kvs0 dom_delete_subset [of "''links''" kvs0] by (auto split: if_splits)
  then have both: "''attributes'' \<in> fst ` set kvs0" "''relationships'' \<in> fst ` set kvs0"
    using a(2) rel1 by auto
  have no_index: "arrayIndex ''data'' = None"
    by (simp add: arrayIndex_def digitVal_def digits10_def)
  have "jsGet r ''data'' = Inr d0"
    using res1 res2 d0 kvs0 no_index
    by (cases r) (auto simp: delete_conv' split: if_splits option.splits)
  then show ?thesis
    using kvs0 both by blast
qed

subsection \<open>The relationship extractor\<close>

lemma set_insertIndex: "set (insertIndex n k v kvs) = insert (k, v) (set kvs)"
  by (induction kvs) (auto split: option.splits)

lemma set_update_subset: "set (AList.update k v kvs) \<subseteq> insert (k, v) (set kvs)"
  by (induction kvs) auto

lemma set_objSet_subset: "set (objSet k v kvs) \<subseteq> insert (k, v) (set kvs)"
  using set_update_subset [of k v kvs]
  by (auto simp: objSet_def set_insertIndex split: option.splits)

lemma keys_objSet: "fst ` set (objSet k v kvs) = insert k (fst ` set kvs)"
  by (auto simp: objSet_def set_insertIndex dom_update split: option.splits)

lemma distinct_insertIndex:
  "k \<notin> fst ` set kvs \<Longrightarrow> distinct (map fst kvs) \<Longrightarrow> distinct (map fst (insertIndex n k v kvs))"
  by (induction kvs) (auto simp: set_insertIndex split: option.splits)

lemma distinct_objSet: "distinct (map fst kvs) \<Longrightarrow> distinct (map fst (objSet k v kvs))"
  by (auto simp: objSet_def distinct_insertIndex distinct_update split: option.splits)

lemma objAssign_Cons: "objAssign acc (p # src) = objAssign (objSet (fst p) (snd p) acc) src"
  by (simp add: objAssign_def)

lemma keys_objAssign: "fst ` set (objAssign acc src) = fst ` set acc \<union> fst ` set src"
proof (induction src arbitrary: acc)
  case Nil
  then show ?case by (simp add: objAssign_def)
next
  case (Cons p src)
  then show ?case by (auto simp: objAssign_Cons keys_objSet)
qed

lemma set_objAssign_subset: "set (objAssign acc src) \<subseteq> set acc \<union> set src"
proof (induction src arbitrary: acc)
  case Nil
  then show ?case by (simp add: objAssign_def)
next
  case (Cons p src)
  have "set (objAssign (objSet (fst p) (snd p) acc) src) \<subseteq> set (objSet (fst p) (snd p) acc) \<union> set src"
    by (rule Cons.IH)
  then show ?case
    using set_objSet_subset [of "fst p" "snd p" acc] by (auto simp: objAssign_Cons)
qed

lemma distinct_objAssign: "distinct (map fst acc) \<Longrightarrow> distinct (map fst (objAssign acc src))"
proof (induction src arbitrary: acc)
  case Nil
  then show ?case by (simp add: objAssign_def)
next
  case (Cons p src)
  then show ?case by (simp add: objAssign_Cons distinct_objSet)
qed


definition collected :: "'o drupalEntity \<Rightarrow> json list \<Rightarrow> (string \<times> lookup) list
    \<Rightarrow> (string \<times> lookup) list \<Rightarrow> bool" where
  "collected e rs acc found =
     (distinct (map fst found)
      \<and> set found \<subseteq> set acc \<union> lookupEntries e rs
      \<and> fst ` set found = fst ` set acc \<union> fst ` lookupEntries e rs
      \<and> list_all (\<lambda>r. \<exists>l. dataToLookup r = Inr l) rs)"

lemma lookupEntries_append:
  "lookupEntries e (rs @ rs') = lookupEntries e rs \<union> lookupEntries e rs'"
  by (auto simp: lookupEntries_def)

lemma lookupEntries_Nil: "lookupEntries e [] = {}"
  by (simp add: lookupEntries_def)

lemma lookupEntries_single:
  "dataToLookup r = Inr l \<Longrightarrow> lookupEntries e [r] = {(endpoint (api e) l, l)}"
  by (auto simp: lookupEntries_def)

lemma collected_step:
  assumes first: "collected e rs [] b" and rest: "collected e rs' (objAssign acc b) found"
  shows "collected e (rs @ rs') acc found"
proof -
  have "set found \<subseteq> set (objAssign acc b) \<union> lookupEntries e rs'"
    using rest by (simp add: collected_def)
  moreover have "set (objAssign acc b) \<subseteq> set acc \<union> set b"
    by (rule set_objAssign_subset)
  moreover have "set b \<subseteq> lookupEntries e rs"
    using first by (simp add: collected_def)
  ultimately have sub: "set found \<subseteq> set acc \<union> lookupEntries e (rs @ rs')"
    by (auto simp: lookupEntries_append)
  have "fst ` set found = fst ` set (objAssign acc b) \<union> fst ` lookupEntries e rs'"
    using rest by (simp add: collected_def)
  moreover have "fst ` set b = fst ` lookupEntries e rs"
    using first by (simp add: collected_def)
  ultimately have keys: "fst ` set found = fst ` set acc \<union> fst ` lookupEntries e (rs @ rs')"
    by (simp add: keys_objAssign lookupEntries_append image_Un Un_assoc)
  show ?thesis
    using first rest sub keys by (simp add: collected_def)
qed

lemma reachable_reference:
  "isRelationship (config e) v = Inr True \<Longrightarrow> reachableReferences e v = [v]"
  by (simp add: reachableReferences.simps [of e v])

lemma reachable_array:
  "isRelationship (config e) (JArr ys) = Inr False
     \<Longrightarrow> reachableReferences e (JArr ys) = concat (map (reachableReferences e) ys)"
  by (simp add: reachableReferences.simps [of e "JArr ys"])

lemma reachable_object:
  "isRelationship (config e) (JObj ps) = Inr False
     \<Longrightarrow> reachableReferences e (JObj ps) = concat (map (\<lambda>p. reachableReferences e (snd p)) ps)"
  by (simp add: reachableReferences.simps [of e "JObj ps"])

lemma reachable_other:
  "isRelationship (config e) v = Inr False \<Longrightarrow> \<not> isArray v \<Longrightarrow> (\<And>ps. v \<noteq> JObj ps)
     \<Longrightarrow> reachableReferences e v = []"
  by (subst reachableReferences.simps, cases v) auto

lemma parse_collected:
  "parseRelationshipLookups e items = Inr found
     \<Longrightarrow> collected e (reachableReferences e items) [] found"
  and "parseItems e xs acc = Inr found \<Longrightarrow> distinct (map fst acc)
     \<Longrightarrow> collected e (concat (map (reachableReferences e) xs)) acc found"
  and "parseValues e kvs acc = Inr found \<Longrightarrow> distinct (map fst acc)
     \<Longrightarrow> collected e (concat (map (\<lambda>p. reachableReferences e (snd p)) kvs)) acc found"
proof (induction e items and e xs acc and e kvs acc arbitrary: found and found and found
    rule: parseRelationshipLookups_parseItems_parseValues.induct)
  case (1 e items)
  obtain rel where rel: "isRelationship (config e) items = Inr rel"
    using 1(3) by (cases "isRelationship (config e) items") auto
  show ?case
  proof (cases rel)
    case True
    then obtain l where l: "dataToLookup items = Inr l" and f: "found = [(endpoint (api e) l, l)]"
      using 1(3) rel by (cases "dataToLookup items") auto
    have "reachableReferences e items = [items]"
      using rel True by (simp add: reachable_reference)
    then show ?thesis
      using l f by (simp add: collected_def lookupEntries_single)
  next
    case False
    show ?thesis
    proof (cases items)
      case (JArr ys)
      then have "parseItems e ys [] = Inr found"
        using 1(3) rel False by simp
      then have "collected e (concat (map (reachableReferences e) ys)) [] found"
        using 1(1) [OF rel False JArr] by simp
      then show ?thesis
        using rel False JArr by (simp add: reachable_array)
    next
      case (JObj ps)
      then have "parseValues e ps [] = Inr found"
        using 1(3) rel False by simp
      then have "collected e (concat (map (\<lambda>p. reachableReferences e (snd p)) ps)) [] found"
        using 1(2) [OF rel False JObj] by simp
      then show ?thesis
        using rel False JObj by (simp add: reachable_object)
    qed (use 1(3) rel False in
        \<open>auto simp: reachable_other collected_def lookupEntries_Nil\<close>)
  qed
next
  case (2 e acc)
  then show ?case by (auto simp: collected_def lookupEntries_Nil)
next
  case (3 e x xs acc)
  obtain b where b: "parseRelationshipLookups e x = Inr b"
    using 3(3) by (cases "parseRelationshipLookups e x") auto
  then have rest: "parseItems e xs (objAssign acc b) = Inr found"
    using 3(3) by simp
  have "collected e (reachableReferences e x) [] b"
    using 3(1) b by simp
  moreover have "collected e (concat (map (reachableReferences e) xs)) (objAssign acc b) found"
    using 3(2) [OF b rest] 3(4) by (simp add: distinct_objAssign)
  ultimately show ?case
    using collected_step by fastforce
next
  case (4 e acc)
  then show ?case by (auto simp: collected_def lookupEntries_Nil)
next
  case (5 e p ps acc)
  obtain b where b: "parseRelationshipLookups e (snd p) = Inr b"
    using 5(3) by (cases "parseRelationshipLookups e (snd p)") auto
  then have rest: "parseValues e ps (objAssign acc b) = Inr found"
    using 5(3) by simp
  have "collected e (reachableReferences e (snd p)) [] b"
    using 5(1) b by simp
  moreover have "collected e (concat (map (\<lambda>p. reachableReferences e (snd p)) ps)) (objAssign acc b) found"
    using 5(2) [OF b rest] 5(4) by (simp add: distinct_objAssign)
  ultimately show ?case
    using collected_step by fastforce
qed

text \<open>
  With the default predicate the extractor returns for every structure whose \<^verbatim>\<open>type\<close>
  members are strings; it throws only where a truthy \<^verbatim>\<open>type\<close> has no \<^verbatim>\<open>indexOf\<close> or
  no \<^verbatim>\<open>split\<close>.
\<close>

lemma default_predicate_total:
  "typesAreStrings v \<Longrightarrow> \<exists>b. isRelationship_default v = Inr b"
  by (cases v) (auto simp: isRelationship_default_def jsProp_def split: option.splits json.splits)

lemma default_lookup_total:
  "typesAreStrings v \<Longrightarrow> isRelationship_default v = Inr True \<Longrightarrow> \<exists>l. dataToLookup v = Inr l"
  by (cases v)
     (auto simp: isRelationship_default_def dataToLookup_def typeSplit_def bindE_def jsProp_def
        split: option.splits json.splits if_splits)

lemma parse_total:
  "isRelationship (config e) = isRelationship_default \<Longrightarrow> typesAreStrings items
     \<Longrightarrow> \<exists>found. parseRelationshipLookups e items = Inr found"
  and "isRelationship (config e) = isRelationship_default \<Longrightarrow> list_all typesAreStrings xs
     \<Longrightarrow> \<exists>found. parseItems e xs acc = Inr found"
  and "isRelationship (config e) = isRelationship_default
     \<Longrightarrow> list_all (\<lambda>p. typesAreStrings (snd p)) kvs
     \<Longrightarrow> \<exists>found. parseValues e kvs acc = Inr found"
proof (induction e items and e xs acc and e kvs acc
    rule: parseRelationshipLookups_parseItems_parseValues.induct)
  case (1 e items)
  obtain b where b: "isRelationship (config e) items = Inr b"
    using default_predicate_total [OF 1(4)] 1(3) by auto
  show ?case
  proof (cases b)
    case True
    then obtain l where "dataToLookup items = Inr l"
      using default_lookup_total [OF 1(4)] b 1(3) by auto
    then show ?thesis
      using b True by simp
  next
    case False
    show ?thesis
    proof (cases items)
      case (JArr ys)
      then show ?thesis
        using 1(1) [OF b False JArr 1(3)] 1(4) b False by simp
    next
      case (JObj ps)
      then show ?thesis
        using 1(2) [OF b False JObj 1(3)] 1(4) b False by simp
    qed (use b False in auto)
  qed
next
  case (3 e x xs acc)
  obtain b where b: "parseRelationshipLookups e x = Inr b"
    using 3(1) 3(3) 3(4) by auto
  then show ?case
    using 3(2) [OF b 3(3)] 3(4) by simp
next
  case (5 e p ps acc)
  obtain b where b: "parseRelationshipLookups e (snd p) = Inr b"
    using 5(1) 5(3) 5(4) by auto
  then show ?case
    using 5(2) [OF b 5(3)] 5(4) by simp
qed simp_all

text \<open>
  Claim C4. For every nested structure on which \<^verbatim>\<open>parseRelationshipLookups\<close> returns, the
  mapping it returns has one entry per key; every entry is a lookup of a reachable
  reference (reached through the values of objects and the elements of arrays, never
  through a reference) under the collaborator's endpoint of that lookup; and the
  endpoint of every reachable reference is a key. So two references with one endpoint
  give one entry. (By \<open>parse_total\<close> it returns for every structure of a JSON:API
  document.)
\<close>

theorem parse_collects_reachable_references:
  assumes "parseRelationshipLookups e items = Inr found"
  shows "distinct (map fst found)
    \<and> set found \<subseteq> lookupEntries e (reachableReferences e items)
    \<and> fst ` set found = fst ` lookupEntries e (reachableReferences e items)
    \<and> list_all (\<lambda>r. \<exists>l. dataToLookup r = Inr l) (reachableReferences e items)"
  using parse_collected(1) [OF assms] by (simp add: collected_def)

theorem parse_collects_reachable_references_witness:
  "parseRelationshipLookups page_entity nested_structure
     = Inr [(''taxonomy_term/tags/g1'', lookup_of ''taxonomy_term'' ''tags'' ''g1''),
            (''node/article/a1'', lookup_of ''node'' ''article'' ''a1'')]
   \<and> reachableReferences page_entity nested_structure = [term_g1, term_g1, article_with_child]
   \<and> fst ` lookupEntries page_entity (reachableReferences page_entity nested_structure)
       = {''taxonomy_term/tags/g1'', ''node/article/a1''}"
proof -
  have parsed: "parseRelationshipLookups page_entity nested_structure
     = Inr [(''taxonomy_term/tags/g1'', lookup_of ''taxonomy_term'' ''tags'' ''g1''),
            (''node/article/a1'', lookup_of ''node'' ''article'' ''a1'')]"
    by (simp add: nested_structure_def term_g1_def article_with_child_def lookup_of_def
        page_entity_def scenario_api_def dataToLookup_def objAssign_def eval_defs)
  have reached: "reachableReferences page_entity nested_structure
      = [term_g1, term_g1, article_with_child]"
    by (simp add: nested_structure_def term_g1_def article_with_child_def page_entity_def
        reachableReferences.simps eval_defs)
  show ?thesis
    using parse_collects_reachable_references [OF parsed] parsed reached by auto
qed

subsection \<open>The traversal coordinator\<close>

lemma neither_rejected_nor_pending:
  "\<not> list_ex (\<lambda>p. p = Rejected) ps \<Longrightarrow> \<not> list_ex (\<lambda>p. p = Pending) ps
     \<Longrightarrow> list_all (\<lambda>p. \<exists>v. p = Fulfilled v) ps"
proof (induction ps)
  case Nil
  then show ?case by simp
next
  case (Cons p ps)
  then show ?case by (cases p) simp_all
qed

lemma promiseAll_fulfilled:
  assumes "promiseAll ps = Fulfilled vs"
  shows "list_all (\<lambda>p. \<exists>v. p = Fulfilled v) ps"
proof -
  have "\<not> list_ex (\<lambda>p. p = Rejected) ps" and "\<not> list_ex (\<lambda>p. p = Pending) ps"
    using assms by (simp_all add: promiseAll_def split: if_splits)
  then show ?thesis
    by (rule neither_rejected_nor_pending)
qed

lemma entries_keyed_by_endpoint:
  assumes "set found \<subseteq> lookupEntries e rs"
  shows "map (\<lambda>p. endpoint (api e) (snd p)) found = map fst found"
  using assms by (induction found) (auto simp: lookupEntries_def)

lemma promiseAll_rejected:
  "list_ex (\<lambda>p. p = Rejected) ps \<Longrightarrow> promiseAll ps = Rejected"
  by (simp add: promiseAll_def)

text \<open>
  \<^verbatim>\<open>depth + 1\<close> is the next integer for the depths from \<open>- 2^53\<close> to \<open>2^53 - 1\<close>; at
  \<open>2^53\<close> the sum is rounded back to \<open>2^53\<close>, and without a depth it is \<^verbatim>\<open>NaN\<close>.
\<close>

lemma plusOne_exact:
  assumes "- (2 ^ 53) \<le> n" and "n < 2 ^ 53"
  shows "plusOne (Number n) = Number (n + 1)"
proof -
  have "\<bar>n + 1\<bar> \<le> 2 ^ 53"
    using assms by simp
  then show ?thesis
    by (simp add: roundDouble_def)
qed

lemma bitLength_double: "0 < n \<Longrightarrow> bitLength (2 * n) = Suc (bitLength n)"
  by (subst bitLength.simps) simp

lemma bitLength_double_plus: "bitLength (2 * n + 1) = Suc (bitLength n)"
  by (subst bitLength.simps) simp

lemma bitLength_above_2_53: "bitLength 9007199254740993 = 54"
proof -
  have "bitLength 9007199254740993 = Suc (bitLength 4503599627370496)"
    using bitLength_double_plus [of 4503599627370496] by simp
  moreover have "bitLength (2 ^ k) = Suc k" for k
  proof (induction k)
    case 0
    show ?case by (subst bitLength.simps, subst bitLength.simps) simp
  next
    case (Suc k)
    then show ?case using bitLength_double [of "2 ^ k"] by simp
  qed
  then have "bitLength 4503599627370496 = 53"
    using \<open>\<And>k. bitLength (2 ^ k) = Suc k\<close> [of 52] by simp
  ultimately show ?thesis by simp
qed

lemma plusOne_at_2_53: "plusOne (Number 9007199254740992) = Number 9007199254740992"
  by (simp add: roundDouble_def bitLength_above_2_53 Let_def)

lemma plusOne_omitted: "plusOne Undefined = NaN"
  by simp

text \<open>
  Claim C3, as amended. For every non-collection entity with one relationship group
  (as the constructor sets it) and every depth that is an integer from 0 to
  \<open>2^53 - 1\<close>: when the group is absent no call is made; otherwise
  \<^verbatim>\<open>loadRelationships(depth)\<close> takes the keys of the group that pass one of
  \<^verbatim>\<open>relationshipTests\<close>, extracts the lookups of the references reachable from the values
  of these fields, leaves out exactly the lookups for which \<^verbatim>\<open>hasBeenTraversed\<close> holds,
  and calls \<^verbatim>\<open>getEntity\<close> once for each lookup that remains (no endpoint twice), with
  \<^verbatim>\<open>depth + 1\<close>. The promise it returns is the \<^verbatim>\<open>Promise.all\<close> of these calls: it is
  rejected when one call is rejected, whatever the state of the others, and it is
  fulfilled only when every call is.
\<close>

theorem load_requests_issued:
  assumes "\<not> isCollection e" and "relationshipGroups e = [grp]"
    and "jsGet (data e) grp = Inr g"
    and "0 \<le> n" and "n < 2 ^ 53"
    and "loadRequests e (relationshipGroups e) (Number n) [] = Inr requests"
  shows "(if truthy g then
            (\<exists>ks names found.
                objectKeys g = Inr ks
              \<and> names = filter (\<lambda>k. list_ex (\<lambda>r. r k) (relationshipTests (config e))) ks
              \<and> parseRelationshipLookups e (JArr (map (jsProp g) names)) = Inr found
              \<and> set found \<subseteq> lookupEntries e (reachableReferences e (JArr (map (jsProp g) names)))
              \<and> fst ` set found
                  = fst ` lookupEntries e (reachableReferences e (JArr (map (jsProp g) names)))
              \<and> fst ` set requests = {l \<in> snd ` set found. \<not> hasBeenTraversed (api e) l})
          else requests = [])
    \<and> list_all (\<lambda>r. snd r = Number (n + 1)) requests
    \<and> distinct (map (\<lambda>r. endpoint (api e) (fst r)) requests)
    \<and> loadRelationships e (Number n)
        = promiseAll (map (\<lambda>r. getEntity (api e) (fst r) (snd r)) requests)
    \<and> (list_ex (\<lambda>r. getEntity (api e) (fst r) (snd r) = Rejected) requests
          \<longrightarrow> loadRelationships e (Number n) = Rejected)
    \<and> (\<forall>vs. loadRelationships e (Number n) = Fulfilled vs
          \<longrightarrow> list_all (\<lambda>r. \<exists>v. getEntity (api e) (fst r) (snd r) = Fulfilled v) requests)"
proof -
  let ?depth = "Number n"
  have next_depth: "plusOne ?depth = Number (n + 1)"
    using assms(4,5) by (intro plusOne_exact) simp_all
  have grp_req: "loadRelationshipGroup e grp ?depth = Inr requests"
    using assms(2,6) by (cases "loadRelationshipGroup e grp ?depth") (auto simp: bindE_def)
  have join: "loadRelationships e ?depth
      = promiseAll (map (\<lambda>r. getEntity (api e) (fst r) (snd r)) requests)"
    using assms(6) by (simp add: loadRelationships_def)
  have failed: "list_ex (\<lambda>r. getEntity (api e) (fst r) (snd r) = Rejected) requests
      \<longrightarrow> loadRelationships e ?depth = Rejected"
  proof
    assume "list_ex (\<lambda>r. getEntity (api e) (fst r) (snd r) = Rejected) requests"
    then have "list_ex (\<lambda>p. p = Rejected) (map (\<lambda>r. getEntity (api e) (fst r) (snd r)) requests)"
      by (force simp: list_ex_iff)
    then show "loadRelationships e ?depth = Rejected"
      using join by (simp add: promiseAll_rejected)
  qed
  have settled: "\<forall>vs. loadRelationships e ?depth = Fulfilled vs
      \<longrightarrow> list_all (\<lambda>r. \<exists>v. getEntity (api e) (fst r) (snd r) = Fulfilled v) requests"
  proof (intro allI impI)
    fix vs assume "loadRelationships e ?depth = Fulfilled vs"
    then have "promiseAll (map (\<lambda>r. getEntity (api e) (fst r) (snd r)) requests) = Fulfilled vs"
      using join by simp
    then have "list_all (\<lambda>p. \<exists>v. p = Fulfilled v)
        (map (\<lambda>r. getEntity (api e) (fst r) (snd r)) requests)"
      by (rule promiseAll_fulfilled)
    then show "list_all (\<lambda>r. \<exists>v. getEntity (api e) (fst r) (snd r) = Fulfilled v) requests"
      by (simp add: list_all_iff)
  qed
  show ?thesis
  proof (cases "truthy g")
    case False
    then have "requests = []"
      using grp_req assms(1,3) by (simp add: loadRelationshipGroup_def bindE_def)
    then show ?thesis
      using False join settled by simp
  next
    case True
    obtain names where names: "relationshipFieldNames e grp = Inr names"
      using grp_req assms(1,3) True
      by (cases "relationshipFieldNames e grp") (auto simp: loadRelationshipGroup_def bindE_def)
    obtain ks where ks: "objectKeys g = Inr ks"
      using names assms(3) True
      by (cases "objectKeys g") (auto simp: relationshipFieldNames_def bindE_def)
    have filtered: "names = filter (\<lambda>k. list_ex (\<lambda>r. r k) (relationshipTests (config e))) ks"
      using names ks assms(3) True by (simp add: relationshipFieldNames_def bindE_def)
    let ?fieldValues = "JArr (map (jsProp g) names)"
    obtain found where found: "parseRelationshipLookups e ?fieldValues = Inr found"
      using grp_req assms(1,3) True names
      by (cases "parseRelationshipLookups e ?fieldValues")
         (auto simp: loadRelationshipGroup_def bindE_def)
    let ?fresh = "filter (\<lambda>p. \<not> hasBeenTraversed (api e) (snd p)) found"
    have requests: "requests = map (\<lambda>p. (snd p, Number (n + 1))) ?fresh"
      using grp_req assms(1,3) True names found next_depth
      by (simp add: loadRelationshipGroup_def bindE_def filter_map comp_def)
    have col: "collected e (reachableReferences e ?fieldValues) [] found"
      using found by (rule parse_collected(1))
    then have sub: "set found \<subseteq> lookupEntries e (reachableReferences e ?fieldValues)"
      and keys: "fst ` set found = fst ` lookupEntries e (reachableReferences e ?fieldValues)"
      and dist: "distinct (map fst found)"
      by (simp_all add: collected_def)
    have "set ?fresh \<subseteq> lookupEntries e (reachableReferences e ?fieldValues)"
      using sub by auto
    then have "map (\<lambda>p. endpoint (api e) (snd p)) ?fresh = map fst ?fresh"
      by (rule entries_keyed_by_endpoint)
    moreover have "distinct (map fst ?fresh)"
      using dist by (rule distinct_map_filter)
    moreover have "map (\<lambda>r. endpoint (api e) (fst r)) requests
        = map (\<lambda>p. endpoint (api e) (snd p)) ?fresh"
      by (simp add: requests comp_def)
    ultimately have one: "distinct (map (\<lambda>r. endpoint (api e) (fst r)) requests)"
      by (simp only:)
    have "fst ` set requests = snd ` set ?fresh"
      by (simp add: requests image_image)
    also have "\<dots> = {l \<in> snd ` set found. \<not> hasBeenTraversed (api e) l}"
      by force
    finally have which: "fst ` set requests = {l \<in> snd ` set found. \<not> hasBeenTraversed (api e) l}" .
    have deep: "list_all (\<lambda>r. snd r = Number (n + 1)) requests"
      by (simp add: requests list_all_iff)
    have "\<exists>ks names found.
          objectKeys g = Inr ks
        \<and> names = filter (\<lambda>k. list_ex (\<lambda>r. r k) (relationshipTests (config e))) ks
        \<and> parseRelationshipLookups e (JArr (map (jsProp g) names)) = Inr found
        \<and> set found \<subseteq> lookupEntries e (reachableReferences e (JArr (map (jsProp g) names)))
        \<and> fst ` set found
            = fst ` lookupEntries e (reachableReferences e (JArr (map (jsProp g) names)))
        \<and> fst ` set requests = {l \<in> snd ` set found. \<not> hasBeenTraversed (api e) l}"
      by (rule exI [of _ ks], rule exI [of _ names], rule exI [of _ found])
         (intro conjI ks filtered found sub keys which)
    then show ?thesis
      using True deep one join failed settled by simp
  qed
qed

theorem load_requests_issued_witness:
  "constructor defaultConfig scenario_api landing_payload = Inr landing_entity
   \<and> \<not> isCollection landing_entity
   \<and> relationshipGroups landing_entity = [''relationships'']
   \<and> jsGet (data landing_entity) ''relationships'' = Inr landing_relationships
   \<and> objectKeys landing_relationships = Inr [''title'', ''field_tags'', ''paragraphs'']
   \<and> filter (\<lambda>k. list_ex (\<lambda>r. r k) (relationshipTests (config landing_entity)))
        [''title'', ''field_tags'', ''paragraphs''] = [''field_tags'', ''paragraphs'']
   \<and> (0::int) \<le> 2 \<and> (2::int) < 2 ^ 53
   \<and> loadRequests landing_entity (relationshipGroups landing_entity) (Number 2) []
       = Inr [(lookup_of ''taxonomy_term'' ''tags'' ''g1'', Number 3),
              (lookup_of ''paragraph'' ''text'' ''x1'', Number 3)]
   \<and> distinct (map (\<lambda>r. endpoint (api landing_entity) (fst r))
        [(lookup_of ''taxonomy_term'' ''tags'' ''g1'', Number 3),
         (lookup_of ''paragraph'' ''text'' ''x1'', Number 3)])
   \<and> loadRelationships landing_entity (Number 2) = Fulfilled [7, 7]"
proof -
  have nc: "\<not> isCollection landing_entity"
    by (simp add: landing_entity_def landing_data_def isCollection_def)
  have groups: "relationshipGroups landing_entity = [''relationships'']"
    by (simp add: landing_entity_def)
  have g: "jsGet (data landing_entity) ''relationships'' = Inr landing_relationships"
    by (simp add: landing_entity_def landing_data_def)
  have ks: "objectKeys landing_relationships = Inr [''title'', ''field_tags'', ''paragraphs'']"
    by (simp add: landing_relationships_def)
  have passing: "filter (\<lambda>k. list_ex (\<lambda>r. r k) (relationshipTests (config landing_entity)))
        [''title'', ''field_tags'', ''paragraphs''] = [''field_tags'', ''paragraphs'']"
    by (simp add: landing_entity_def eval_defs)
  have names: "relationshipFieldNames landing_entity ''relationships''
      = Inr [''field_tags'', ''paragraphs'']"
    using g ks passing by (simp add: relationshipFieldNames_def bindE_def landing_relationships_def)
  have requests: "loadRequests landing_entity (relationshipGroups landing_entity) (Number 2) []
       = Inr [(lookup_of ''taxonomy_term'' ''tags'' ''g1'', Number 3),
              (lookup_of ''paragraph'' ''text'' ''x1'', Number 3)]"
    by (simp add: groups loadRelationshipGroup_def nc g names bindE_def)
       (simp add: landing_relationships_def lookup_of_def landing_entity_def scenario_api_def
         dataToLookup_def objAssign_def roundDouble_def eval_defs)
  have "loadRelationships landing_entity (Number 2)
      = promiseAll (map (\<lambda>r. getEntity (api landing_entity) (fst r) (snd r))
          [(lookup_of ''taxonomy_term'' ''tags'' ''g1'', Number 3),
           (lookup_of ''paragraph'' ''text'' ''x1'', Number 3)])"
    and "distinct (map (\<lambda>r. endpoint (api landing_entity) (fst r))
        [(lookup_of ''taxonomy_term'' ''tags'' ''g1'', Number 3),
         (lookup_of ''paragraph'' ''text'' ''x1'', Number 3)])"
    using load_requests_issued [OF nc groups g _ _ requests] by simp_all
  then show ?thesis
    using nc groups g ks passing requests landing_entity_constructed
    by (simp add: promiseAll_def landing_entity_def scenario_api_def)
qed

text \<open>
  Claim C3 as stated fails in two ways. First (all lookups reachable from the
  relationship group): on the page the reference \<^verbatim>\<open>t1\<close> under the relationship \<^verbatim>\<open>title\<close>
  is reachable from the group and has not been traversed, yet no \<^verbatim>\<open>getEntity\<close> call is
  made for it, because \<^verbatim>\<open>title\<close> does not pass \<^verbatim>\<open>relationshipTests\<close>. Second (completes
  only once all issued requests have settled): with a collaborator whose fetch of
  \<^verbatim>\<open>a1\<close> is rejected while the fetch of \<^verbatim>\<open>g1\<close> is pending, the promise of
  \<^verbatim>\<open>loadRelationships\<close> is rejected: \<^verbatim>\<open>Promise.all\<close> does not wait for the pending call.
\<close>

theorem load_relationships_counterexample:
  "constructor defaultConfig scenario_api page_payload = Inr page_entity
   \<and> parseRelationshipLookups page_entity (jsProp (data page_entity) ''relationships'')
       = Inr [(''node/article/t1'', lookup_of ''node'' ''article'' ''t1''),
              (''node/article/a1'', lookup_of ''node'' ''article'' ''a1''),
              (''taxonomy_term/tags/g1'', lookup_of ''taxonomy_term'' ''tags'' ''g1''),
              (''taxonomy_term/tags/seen'', lookup_of ''taxonomy_term'' ''tags'' ''seen'')]
   \<and> \<not> hasBeenTraversed (api page_entity) (lookup_of ''node'' ''article'' ''t1'')
   \<and> loadRequests page_entity (relationshipGroups page_entity) (Number 0) []
       = Inr [(lookup_of ''node'' ''article'' ''a1'', Number 1),
              (lookup_of ''taxonomy_term'' ''tags'' ''g1'', Number 1)]
   \<and> constructor defaultConfig failing_api page_payload = Inr failing_page_entity
   \<and> loadRequests failing_page_entity (relationshipGroups failing_page_entity) (Number 0) []
       = Inr [(lookup_of ''node'' ''article'' ''a1'', Number 1),
              (lookup_of ''taxonomy_term'' ''tags'' ''g1'', Number 1)]
   \<and> getEntity (api failing_page_entity) (lookup_of ''node'' ''article'' ''a1'') (Number 1) = Rejected
   \<and> getEntity (api failing_page_entity) (lookup_of ''taxonomy_term'' ''tags'' ''g1'') (Number 1)
       = Pending
   \<and> loadRelationships failing_page_entity (Number 0) = Rejected"
proof -
  have nc: "\<not> isCollection page_entity"
    by (simp add: page_entity_def page_data_def isCollection_def)
  have g: "jsGet (data page_entity) ''relationships'' = Inr page_relationships"
    by (simp add: page_entity_def page_data_def)
  have names: "relationshipFieldNames page_entity ''relationships'' = Inr [''field_ref'', ''field_tags'']"
    by (simp add: page_entity_def page_data_def page_relationships_def eval_defs)
  have requests: "loadRequests page_entity (relationshipGroups page_entity) (Number 0) []
       = Inr [(lookup_of ''node'' ''article'' ''a1'', Number 1),
              (lookup_of ''taxonomy_term'' ''tags'' ''g1'', Number 1)]"
    by (simp add: page_entity_def [THEN arg_cong [of _ _ relationshipGroups]]
          loadRelationshipGroup_def nc g names bindE_def)
       (simp add: page_relationships_def lookup_of_def page_entity_def scenario_api_def
         dataToLookup_def objAssign_def roundDouble_def eval_defs)
  have reachable: "parseRelationshipLookups page_entity (jsProp (data page_entity) ''relationships'')
       = Inr [(''node/article/t1'', lookup_of ''node'' ''article'' ''t1''),
              (''node/article/a1'', lookup_of ''node'' ''article'' ''a1''),
              (''taxonomy_term/tags/g1'', lookup_of ''taxonomy_term'' ''tags'' ''g1''),
              (''taxonomy_term/tags/seen'', lookup_of ''taxonomy_term'' ''tags'' ''seen'')]"
    by (simp add: page_entity_def page_data_def page_relationships_def lookup_of_def
        scenario_api_def dataToLookup_def objAssign_def eval_defs)
  have fresh: "\<not> hasBeenTraversed (api page_entity) (lookup_of ''node'' ''article'' ''t1'')"
    by (simp add: page_entity_def scenario_api_def lookup_of_def)
  have nc': "\<not> isCollection failing_page_entity"
    by (simp add: failing_page_entity_def page_entity_def page_data_def isCollection_def)
  have g': "jsGet (data failing_page_entity) ''relationships'' = Inr page_relationships"
    by (simp add: failing_page_entity_def page_entity_def page_data_def)
  have names': "relationshipFieldNames failing_page_entity ''relationships''
      = Inr [''field_ref'', ''field_tags'']"
    by (simp add: failing_page_entity_def page_entity_def page_data_def page_relationships_def
        eval_defs)
  have groups': "relationshipGroups failing_page_entity = [''relationships'']"
    by (simp add: failing_page_entity_def page_entity_def)
  have requests': "loadRequests failing_page_entity (relationshipGroups failing_page_entity)
        (Number 0) []
       = Inr [(lookup_of ''node'' ''article'' ''a1'', Number 1),
              (lookup_of ''taxonomy_term'' ''tags'' ''g1'', Number 1)]"
    by (simp add: groups' loadRelationshipGroup_def nc' g' names' bindE_def)
       (simp add: page_relationships_def lookup_of_def failing_page_entity_def page_entity_def
         failing_api_def scenario_api_def dataToLookup_def objAssign_def roundDouble_def eval_defs)
  have rejected: "getEntity (api failing_page_entity) (lookup_of ''node'' ''article'' ''a1'')
      (Number 1) = Rejected"
    and pending: "getEntity (api failing_page_entity) (lookup_of ''taxonomy_term'' ''tags'' ''g1'')
      (Number 1) = Pending"
    by (simp_all add: failing_page_entity_def failing_api_def lookup_of_def)
  have join: "loadRelationships failing_page_entity (Number 0) = Rejected"
    using rejected pending by (simp add: loadRelationships_def requests' promiseAll_def)
  show ?thesis
    using page_entity_constructed reachable fresh requests failing_page_entity_constructed
      requests' rejected pending join
    by simp
qed

end
